theory Spec2Isabelle
  imports Complex_Main "HOL-Library.Sublist" "HOL-Library.Product_Lexorder" "HOL-Library.Multiset"
begin

section \<open>The flash-message relay (src/services/flash.ts)\<close>

text \<open>
  The module keeps one variable, \<^verbatim>\<open>let _flashMessage: string | null = null\<close>.
  The variable (\<open>flashMessage\<close> below) is the state; each exported function takes it
  and returns the new one.
\<close>

type_synonym flash_state = "string option"

definition initial_flash :: flash_state where
  "initial_flash = None"

definition setFlash :: "string \<Rightarrow> flash_state \<Rightarrow> flash_state" where
  "setFlash message flashMessage = Some message"

definition consumeFlash :: "flash_state \<Rightarrow> string option \<times> flash_state" where
  "consumeFlash flashMessage = (let m = flashMessage in (m, None))"

text \<open>
  A caller is a sequence of calls; \<open>run_flash\<close> threads the variable through them and
  lists what each \<^verbatim>\<open>consumeFlash\<close> call returned.
\<close>

datatype flash_call = SetFlash string | ConsumeFlash

fun run_flash :: "flash_call list \<Rightarrow> flash_state \<Rightarrow> string option list" where
  "run_flash [] s = []"
| "run_flash (SetFlash m # cs) s = run_flash cs (setFlash m s)"
| "run_flash (ConsumeFlash # cs) s =
     (case consumeFlash s of (r, s') \<Rightarrow> r # run_flash cs s')"

text \<open>The messages stored by a sequence of calls, and the non-null results of one.\<close>

fun stored :: "flash_call list \<Rightarrow> string list" where
  "stored [] = []"
| "stored (SetFlash m # cs) = m # stored cs"
| "stored (ConsumeFlash # cs) = stored cs"

fun returned :: "string option list \<Rightarrow> string list" where
  "returned [] = []"
| "returned (None # rs) = returned rs"
| "returned (Some m # rs) = m # returned rs"

section \<open>JavaScript numbers\<close>

text \<open>
  A JavaScript \<^verbatim>\<open>number\<close> is an IEEE double. The model takes the finite ones as exact
  reals (where the rounding error of double arithmetic decides the result it is an
  explicit parameter, see \<open>calculateDistance_rounded\<close> below) and keeps the three
  special values that the code can meet: \<^verbatim>\<open>NaN\<close> (what \<^verbatim>\<open>Math.sqrt\<close> returns on a
  negative argument), \<^verbatim>\<open>Infinity\<close> (the start value of \<^verbatim>\<open>minDistance\<close>) and
  \<^verbatim>\<open>-Infinity\<close> (a finite number minus \<^verbatim>\<open>Infinity\<close>). Coordinates arrive as JSON
  numbers or from the positioning service and are finite, so they are reals.
\<close>

datatype number = NaN | Infinity | NegInfinity | Num real

text \<open>The operator \<^verbatim>\<open>x - y\<close>.\<close>

fun js_sub :: "number \<Rightarrow> number \<Rightarrow> number" where
  "js_sub (Num x) (Num y) = Num (x - y)"
| "js_sub NaN _ = NaN"
| "js_sub _ NaN = NaN"
| "js_sub Infinity Infinity = NaN"
| "js_sub NegInfinity NegInfinity = NaN"
| "js_sub Infinity _ = Infinity"
| "js_sub NegInfinity _ = NegInfinity"
| "js_sub (Num x) Infinity = NegInfinity"
| "js_sub (Num x) NegInfinity = Infinity"

text \<open>The operator \<^verbatim>\<open>x < y\<close>: false as soon as one side is \<^verbatim>\<open>NaN\<close>.\<close>

fun js_less :: "number \<Rightarrow> number \<Rightarrow> bool" where
  "js_less (Num x) (Num y) = (x < y)"
| "js_less NaN _ = False"
| "js_less _ NaN = False"
| "js_less _ NegInfinity = False"
| "js_less Infinity _ = False"
| "js_less NegInfinity _ = True"
| "js_less (Num x) Infinity = True"

text \<open>\<^verbatim>\<open>Math.round\<close> rounds to the nearest integer, a half upwards.\<close>

definition Math_round :: "real \<Rightarrow> real" where
  "Math_round x = of_int \<lfloor>x + 1 / 2\<rfloor>"

text \<open>\<^verbatim>\<open>Math.atan2(y, x)\<close>: the angle of the point \<open>(x, y)\<close>, in \<open>(-\<pi>, \<pi>]\<close>.\<close>

definition Math_atan2 :: "real \<Rightarrow> real \<Rightarrow> real" where
  "Math_atan2 y x =
     (if 0 < x then arctan (y / x)
      else if x < 0 then (if 0 \<le> y then arctan (y / x) + pi else arctan (y / x) - pi)
      else if 0 < y then pi / 2
      else if y < 0 then - (pi / 2)
      else 0)"

section \<open>Great-circle distance (src/app/(tabs)/index.tsx, calculateDistance)\<close>

text \<open>
  \<^verbatim>\<open>Math.sqrt\<close> of a negative number is \<^verbatim>\<open>NaN\<close>, and \<^verbatim>\<open>NaN\<close> goes through
  \<^verbatim>\<open>Math.atan2\<close>, the two products and \<^verbatim>\<open>Math.round\<close> unchanged: that is the first
  branch below. (HOL's \<open>sqrt\<close> is total and is applied to non-negative arguments only.)
\<close>

definition calculateDistance :: "real \<Rightarrow> real \<Rightarrow> real \<Rightarrow> real \<Rightarrow> number" where
  "calculateDistance lat1 lon1 lat2 lon2 =
     (let R = 6371000;
          dLat = ((lat2 - lat1) * pi) / 180;
          dLon = ((lon2 - lon1) * pi) / 180;
          a = sin (dLat / 2) * sin (dLat / 2) +
              cos ((lat1 * pi) / 180) * cos ((lat2 * pi) / 180) *
              sin (dLon / 2) * sin (dLon / 2)
      in if a < 0 \<or> 1 - a < 0 then NaN
         else (let c = 2 * Math_atan2 (sqrt a) (sqrt (1 - a));
                   d = R * c
               in Num (Math_round d)))"

section \<open>JavaScript strings\<close>

text \<open>
  Strings are modelled as lists of 8-bit characters, so the model speaks about ASCII
  text: \<^verbatim>\<open>toLowerCase\<close> maps \<^verbatim>\<open>A\<close>..\<^verbatim>\<open>Z\<close> to \<^verbatim>\<open>a\<close>..\<^verbatim>\<open>z\<close> and leaves every
  other character alone, and \<^verbatim>\<open>trim\<close> strips the ASCII white space and line
  terminators (tab, line feed, vertical tab, form feed, carriage return, space).
\<close>

definition toLowerCase_char :: "char \<Rightarrow> char" where
  "toLowerCase_char c =
     (case map_of (zip ''ABCDEFGHIJKLMNOPQRSTUVWXYZ'' ''abcdefghijklmnopqrstuvwxyz'') c of
        None \<Rightarrow> c
      | Some l \<Rightarrow> l)"

definition toLowerCase :: "string \<Rightarrow> string" where
  "toLowerCase s = map toLowerCase_char s"

definition isWhiteSpace :: "char \<Rightarrow> bool" where
  "isWhiteSpace c =
     (c \<in> set [CHR 0x09, CHR 0x0A, CHR 0x0B, CHR 0x0C, CHR 0x0D, CHR '' ''])"

definition trim :: "string \<Rightarrow> string" where
  "trim s = rev (dropWhile isWhiteSpace (rev (dropWhile isWhiteSpace s)))"

text \<open>\<^verbatim>\<open>s.includes(q)\<close>: \<open>q\<close> occurs in \<open>s\<close> as a contiguous substring.\<close>

fun string_includes :: "string \<Rightarrow> string \<Rightarrow> bool" where
  "string_includes [] q = (q = [])"
| "string_includes (c # s) q = (prefix q (c # s) \<or> string_includes s q)"

section \<open>Customers and ranked entries (src/app/(tabs)/index.tsx)\<close>

text \<open>
  \<^verbatim>\<open>currentLocation\<close> is \<^verbatim>\<open>{ latitude: number; longitude: number } | null\<close>.
\<close>

record location =
  latitude :: real
  longitude :: real

text \<open>
  The type \<^verbatim>\<open>Customer\<close>; the field \<^verbatim>\<open>_id\<close> is \<open>id'\<close> here. \<^verbatim>\<open>number | null\<close> and
  the optional fields are options. The type gives every customer a \<^verbatim>\<open>status\<close> string;
  the guards \<^verbatim>\<open>c.status || ""\<close> and \<^verbatim>\<open>customer.status && ...\<close> of the callbacks are
  kept as they are written.
\<close>

record customer =
  id' :: string
  name :: string
  address :: string
  latitude :: "real option"
  longitude :: "real option"
  orderDetails :: "string option"
  deliveryPerson :: "string option"
  status :: string
  deliveryDate :: string
  createdAt :: string
  updatedAt :: string

text \<open>
  The object \<^verbatim>\<open>{ ...c, distance }\<close>: every field of \<open>c\<close> and one more, which is
  \<^verbatim>\<open>null\<close> or a number. (A local variable that the source calls \<^verbatim>\<open>distance\<close> is
  \<open>d\<close> in the definitions, since \<open>distance\<close> is the field.)
\<close>

record customerWithDistance = customer +
  distance :: "number option"

definition spread_distance :: "customer \<Rightarrow> number option \<Rightarrow> customerWithDistance" where
  "spread_distance c d = customer.extend c (customerWithDistance.fields d)"

text \<open>
  Truthiness, as \<^verbatim>\<open>!x\<close>, \<^verbatim>\<open>x && y\<close> and \<^verbatim>\<open>x || y\<close> test it: \<^verbatim>\<open>null\<close>,
  \<^verbatim>\<open>undefined\<close>, the number \<open>0\<close> and the empty string are falsy.
\<close>

definition truthy_number :: "real option \<Rightarrow> bool" where
  "truthy_number v = (case v of None \<Rightarrow> False | Some x \<Rightarrow> x \<noteq> 0)"

definition truthy_string :: "string \<Rightarrow> bool" where
  "truthy_string s = (s \<noteq> [])"

section \<open>The filtered, ranked list\<close>

text \<open>
  The callback of \<^verbatim>\<open>customers.filter\<close>. Its result is used for its truthiness, so
  \<^verbatim>\<open>c.deliveryPerson && c.deliveryPerson.toLowerCase().includes(q)\<close> counts when the
  field is present, non-empty and includes \<open>q\<close>.
\<close>

definition filterCallback :: "string \<Rightarrow> customer \<Rightarrow> bool" where
  "filterCallback searchQuery c =
     (if toLowerCase (if truthy_string (status c) then status c else []) = ''delivered''
      then False
      else (let q = toLowerCase (trim searchQuery) in
        if \<not> truthy_string q then True
        else string_includes (toLowerCase (name c)) q
           \<or> string_includes (toLowerCase (address c)) q
           \<or> (case deliveryPerson c of None \<Rightarrow> False
               | Some p \<Rightarrow> truthy_string p \<and> string_includes (toLowerCase p) q)
           \<or> (case orderDetails c of None \<Rightarrow> False
               | Some d \<Rightarrow> truthy_string d \<and> string_includes (toLowerCase d) q)))"

definition filteredCustomers :: "customer list \<Rightarrow> string \<Rightarrow> customer list" where
  "filteredCustomers customers searchQuery = filter (filterCallback searchQuery) customers"

text \<open>
  The callback of \<^verbatim>\<open>filteredCustomers.map\<close>: the distance stays \<^verbatim>\<open>null\<close> unless
  \<^verbatim>\<open>currentLocation && c.latitude && c.longitude\<close> is truthy.
\<close>

definition mapCallback :: "location option \<Rightarrow> customer \<Rightarrow> customerWithDistance" where
  "mapCallback currentLocation c =
     (let d =
        (case currentLocation of
           None \<Rightarrow> None
         | Some loc \<Rightarrow>
             (if truthy_number (latitude c) \<and> truthy_number (longitude c)
              then (case (latitude c, longitude c) of
                      (Some lat, Some lon) \<Rightarrow>
                        Some (calculateDistance (location.latitude loc) (location.longitude loc)
                                lat lon)
                    | _ \<Rightarrow> None)
              else None))
      in spread_distance c d)"

definition customersWithDistance ::
  "customer list \<Rightarrow> string \<Rightarrow> location option \<Rightarrow> customerWithDistance list" where
  "customersWithDistance customers searchQuery currentLocation =
     map (mapCallback currentLocation) (filteredCustomers customers searchQuery)"

text \<open>The comparator handed to \<^verbatim>\<open>sort\<close>.\<close>

definition sortCallback :: "customerWithDistance \<Rightarrow> customerWithDistance \<Rightarrow> number" where
  "sortCallback a b =
     (case (distance a, distance b) of
        (None, None) \<Rightarrow> Num 0
      | (None, Some _) \<Rightarrow> Num 1
      | (Some _, None) \<Rightarrow> Num (- 1)
      | (Some da, Some db) \<Rightarrow> js_sub da db)"

text \<open>
  \<^verbatim>\<open>Array.prototype.sort\<close> with a comparator. ECMAScript requires the sort to be
  stable and leaves the algorithm open; for a consistent comparator every stable
  algorithm returns the same array. The model is insertion sort, from the right:
  \<open>x\<close> stood before every element of the list it is inserted into, and it moves behind
  \<open>y\<close> only when \<^verbatim>\<open>cmp(x, y) > 0\<close> (a \<^verbatim>\<open>NaN\<close> result counts as \<open>0\<close>).
\<close>

fun sort_insert :: "('a \<Rightarrow> 'a \<Rightarrow> number) \<Rightarrow> 'a \<Rightarrow> 'a list \<Rightarrow> 'a list" where
  "sort_insert cmp x [] = [x]"
| "sort_insert cmp x (y # ys) =
     (if js_less (Num 0) (cmp x y) then y # sort_insert cmp x ys else x # y # ys)"

definition Array_sort :: "('a \<Rightarrow> 'a \<Rightarrow> number) \<Rightarrow> 'a list \<Rightarrow> 'a list" where
  "Array_sort cmp xs = foldr (sort_insert cmp) xs []"

text \<open>
  \<^verbatim>\<open>sortedCustomers\<close>, the list the screen renders: the spec's \<^verbatim>\<open>filterAndRank\<close>.
\<close>

definition sortedCustomers ::
  "customer list \<Rightarrow> string \<Rightarrow> location option \<Rightarrow> customerWithDistance list" where
  "sortedCustomers customers searchQuery currentLocation =
     Array_sort sortCallback (customersWithDistance customers searchQuery currentLocation)"

section \<open>The nearest customer (getNearestCustomerInfo)\<close>

text \<open>
  The body of the \<^verbatim>\<open>forEach\<close> callback, on the two variables it assigns:
  \<^verbatim>\<open>nearest\<close> and \<^verbatim>\<open>minDistance\<close>. Each \<^verbatim>\<open>return\<close> leaves them as they are.
\<close>

definition forEachCallback ::
  "location \<Rightarrow> customerWithDistance option \<times> number \<Rightarrow> customer
     \<Rightarrow> customerWithDistance option \<times> number" where
  "forEachCallback currentLocation st customer =
     (case st of (nearest, minDistance) \<Rightarrow>
        if \<not> truthy_number (latitude customer) \<or> \<not> truthy_number (longitude customer)
        then (nearest, minDistance)
        else if truthy_string (status customer)
                \<and> toLowerCase (status customer) = ''delivered''
        then (nearest, minDistance)
        else (case (latitude customer, longitude customer) of
                (Some lat, Some lon) \<Rightarrow>
                  (let d = calculateDistance (location.latitude currentLocation)
                             (location.longitude currentLocation) lat lon
                   in if js_less d minDistance
                      then (Some (spread_distance customer (Some d)), d)
                      else (nearest, minDistance))
              | _ \<Rightarrow> (nearest, minDistance)))"

text \<open>\<^verbatim>\<open>getNearestCustomerInfo\<close>: the spec's \<^verbatim>\<open>findNearestEligible\<close>.\<close>

definition getNearestCustomerInfo ::
  "customer list \<Rightarrow> location option \<Rightarrow> customerWithDistance option" where
  "getNearestCustomerInfo customers currentLocation =
     (case currentLocation of
        None \<Rightarrow> None
      | Some loc \<Rightarrow> fst (foldl (forEachCallback loc) (None, Infinity) customers))"

section \<open>The engine's string methods and the rounding of the distance as parameters\<close>

text \<open>
  The definitions above fix two things that belong to the JavaScript engine and not to
  the code: \<open>toLowerCase\<close> and \<open>trim\<close> are the ASCII parts of
  \<^verbatim>\<open>String.prototype.toLowerCase\<close> and \<^verbatim>\<open>String.prototype.trim\<close>, and
  \<open>calculateDistance\<close> computes with exact reals where the engine computes with doubles.
  The definitions of this section are the same statements of the source with these left
  open. The two string methods are the parameters \<open>lower\<close> and \<open>trm\<close>, any functions
  on strings. The rounding error of the double evaluation is the parameter \<open>e\<close>: the
  value that the engine has in the variable \<^verbatim>\<open>a\<close> is the exact value plus \<open>e\<close>, so
  with \<open>e = 0\<close> the function is \<open>calculateDistance\<close>, and with the exact value at
  \<open>1\<close> an error upwards takes \<^verbatim>\<open>Math.sqrt(1 - a)\<close> to \<^verbatim>\<open>NaN\<close>.
\<close>

definition calculateDistance_rounded ::
  "real \<Rightarrow> real \<Rightarrow> real \<Rightarrow> real \<Rightarrow> real \<Rightarrow> number" where
  "calculateDistance_rounded e lat1 lon1 lat2 lon2 =
     (let R = 6371000;
          dLat = ((lat2 - lat1) * pi) / 180;
          dLon = ((lon2 - lon1) * pi) / 180;
          a = sin (dLat / 2) * sin (dLat / 2) +
              cos ((lat1 * pi) / 180) * cos ((lat2 * pi) / 180) *
              sin (dLon / 2) * sin (dLon / 2) + e
      in if a < 0 \<or> 1 - a < 0 then NaN
         else (let c = 2 * Math_atan2 (sqrt a) (sqrt (1 - a));
                   d = R * c
               in Num (Math_round d)))"

definition filterCallback_with ::
  "(string \<Rightarrow> string) \<Rightarrow> (string \<Rightarrow> string) \<Rightarrow> string \<Rightarrow> customer \<Rightarrow> bool" where
  "filterCallback_with lower trm searchQuery c =
     (if lower (if truthy_string (status c) then status c else []) = ''delivered''
      then False
      else (let q = lower (trm searchQuery) in
        if \<not> truthy_string q then True
        else string_includes (lower (name c)) q
           \<or> string_includes (lower (address c)) q
           \<or> (case deliveryPerson c of None \<Rightarrow> False
               | Some p \<Rightarrow> truthy_string p \<and> string_includes (lower p) q)
           \<or> (case orderDetails c of None \<Rightarrow> False
               | Some d \<Rightarrow> truthy_string d \<and> string_includes (lower d) q)))"

definition filteredCustomers_with ::
  "(string \<Rightarrow> string) \<Rightarrow> (string \<Rightarrow> string) \<Rightarrow> customer list \<Rightarrow> string \<Rightarrow> customer list" where
  "filteredCustomers_with lower trm customers searchQuery =
     filter (filterCallback_with lower trm searchQuery) customers"

text \<open>
  The rounding error depends on the arguments of the call, so the map callback takes it
  as a function \<open>err\<close> of the four coordinates.
\<close>

definition mapCallback_with ::
  "(real \<Rightarrow> real \<Rightarrow> real \<Rightarrow> real \<Rightarrow> real) \<Rightarrow> location option \<Rightarrow> customer
     \<Rightarrow> customerWithDistance" where
  "mapCallback_with err currentLocation c =
     (let d =
        (case currentLocation of
           None \<Rightarrow> None
         | Some loc \<Rightarrow>
             (if truthy_number (latitude c) \<and> truthy_number (longitude c)
              then (case (latitude c, longitude c) of
                      (Some lat, Some lon) \<Rightarrow>
                        Some (calculateDistance_rounded
                                (err (location.latitude loc) (location.longitude loc) lat lon)
                                (location.latitude loc) (location.longitude loc) lat lon)
                    | _ \<Rightarrow> None)
              else None))
      in spread_distance c d)"

definition customersWithDistance_with ::
  "(string \<Rightarrow> string) \<Rightarrow> (string \<Rightarrow> string) \<Rightarrow> (real \<Rightarrow> real \<Rightarrow> real \<Rightarrow> real \<Rightarrow> real)
     \<Rightarrow> customer list \<Rightarrow> string \<Rightarrow> location option \<Rightarrow> customerWithDistance list" where
  "customersWithDistance_with lower trm err customers searchQuery currentLocation =
     map (mapCallback_with err currentLocation)
       (filteredCustomers_with lower trm customers searchQuery)"

definition sortedCustomers_with ::
  "(string \<Rightarrow> string) \<Rightarrow> (string \<Rightarrow> string) \<Rightarrow> (real \<Rightarrow> real \<Rightarrow> real \<Rightarrow> real \<Rightarrow> real)
     \<Rightarrow> customer list \<Rightarrow> string \<Rightarrow> location option \<Rightarrow> customerWithDistance list" where
  "sortedCustomers_with lower trm err customers searchQuery currentLocation =
     Array_sort sortCallback
       (customersWithDistance_with lower trm err customers searchQuery currentLocation)"

section \<open>The heap: arrays and objects by reference\<close>

text \<open>
  The definitions above take the arrays as values. For the claim that the input is left
  alone the arrays and objects live in a heap and are handed around by reference, as
  in JavaScript: \<^verbatim>\<open>filter\<close> and \<^verbatim>\<open>map\<close> allocate a new array, the object spread
  \<^verbatim>\<open>{ ...c, distance }\<close> allocates a new object, and \<^verbatim>\<open>sort\<close> writes into the array it
  is called on and returns that same array. An address is an index into the list of
  objects or of arrays, and allocation appends. A JavaScript reference always points to
  a live object, so every read below is at an address inside the heap (\<open>wf_heap\<close>).
\<close>

type_synonym ref = nat

datatype object = CustomerObject customer | EntryObject customerWithDistance

record heap =
  objects :: "object list"
  arrays :: "ref list list"

definition new_object :: "object \<Rightarrow> heap \<Rightarrow> ref \<times> heap" where
  "new_object v h = (length (objects h), h\<lparr>objects := objects h @ [v]\<rparr>)"

definition new_array :: "ref list \<Rightarrow> heap \<Rightarrow> ref \<times> heap" where
  "new_array rs h = (length (arrays h), h\<lparr>arrays := arrays h @ [rs]\<rparr>)"

text \<open>
  Reading the customer fields of an object, and reading it as an entry: on an object
  without the property, \<^verbatim>\<open>o.distance\<close> is \<^verbatim>\<open>undefined\<close>, which \<^verbatim>\<open>== null\<close>.
\<close>

fun customer_of :: "object \<Rightarrow> customer" where
  "customer_of (CustomerObject c) = c"
| "customer_of (EntryObject e) = customer.truncate e"

fun entry_of :: "object \<Rightarrow> customerWithDistance" where
  "entry_of (CustomerObject c) = spread_distance c None"
| "entry_of (EntryObject e) = e"

definition wf_heap :: "heap \<Rightarrow> bool" where
  "wf_heap h = (\<forall>rs\<in>set (arrays h). \<forall>r\<in>set rs. r < length (objects h))"

text \<open>The contents of an array of customers, and of an array of entries.\<close>

definition read_customers :: "heap \<Rightarrow> ref \<Rightarrow> customer list" where
  "read_customers h a = map (\<lambda>r. customer_of (objects h ! r)) (arrays h ! a)"

definition read_entries :: "heap \<Rightarrow> ref \<Rightarrow> customerWithDistance list" where
  "read_entries h a = map (\<lambda>r. entry_of (objects h ! r)) (arrays h ! a)"

text \<open>
  \<^verbatim>\<open>arr.filter(p)\<close>: a new array with the references of the elements that \<open>p\<close> accepts.
\<close>

definition heap_filter :: "(customer \<Rightarrow> bool) \<Rightarrow> ref \<Rightarrow> heap \<Rightarrow> ref \<times> heap" where
  "heap_filter p a h =
     new_array (filter (\<lambda>r. p (customer_of (objects h ! r))) (arrays h ! a)) h"

text \<open>
  \<^verbatim>\<open>arr.map(f)\<close> where \<open>f\<close> returns an object literal: one new object per element, in
  order, and a new array of their references.
\<close>

fun heap_map_elements ::
  "(customer \<Rightarrow> customerWithDistance) \<Rightarrow> ref list \<Rightarrow> heap \<Rightarrow> ref list \<times> heap" where
  "heap_map_elements f [] h = ([], h)"
| "heap_map_elements f (r # rs) h =
     (case new_object (EntryObject (f (customer_of (objects h ! r)))) h of
        (r', h') \<Rightarrow>
          (case heap_map_elements f rs h' of (rs', h'') \<Rightarrow> (r' # rs', h'')))"

definition heap_map ::
  "(customer \<Rightarrow> customerWithDistance) \<Rightarrow> ref \<Rightarrow> heap \<Rightarrow> ref \<times> heap" where
  "heap_map f a h =
     (case heap_map_elements f (arrays h ! a) h of (rs, h') \<Rightarrow> new_array rs h')"

text \<open>\<^verbatim>\<open>arr.sort(cmp)\<close>: sorts \<open>arr\<close> in place and returns \<open>arr\<close>.\<close>

definition heap_sort ::
  "(customerWithDistance \<Rightarrow> customerWithDistance \<Rightarrow> number) \<Rightarrow> ref \<Rightarrow> heap \<Rightarrow> ref \<times> heap" where
  "heap_sort cmp a h =
     (a, h\<lparr>arrays := (arrays h)[a :=
            Array_sort (\<lambda>x y. cmp (entry_of (objects h ! x)) (entry_of (objects h ! y)))
              (arrays h ! a)]\<rparr>)"

text \<open>
  The three statements that compute \<^verbatim>\<open>sortedCustomers\<close>, on the heap; \<open>customers\<close> is
  the address of the state array.
\<close>

definition sortedCustomers_heap ::
  "ref \<Rightarrow> string \<Rightarrow> location option \<Rightarrow> heap \<Rightarrow> ref \<times> heap" where
  "sortedCustomers_heap customers searchQuery currentLocation h =
     (case heap_filter (filterCallback searchQuery) customers h of
        (filtered, h1) \<Rightarrow>
          (case heap_map (mapCallback currentLocation) filtered h1 of
             (withDistance, h2) \<Rightarrow> heap_sort sortCallback withDistance h2))"

text \<open>
  \<^verbatim>\<open>getNearestCustomerInfo\<close> on the heap: \<^verbatim>\<open>nearest\<close> holds a reference or
  \<^verbatim>\<open>null\<close>, and \<^verbatim>\<open>nearest = { ...customer, distance }\<close> allocates.
\<close>

definition forEachCallback_heap ::
  "location \<Rightarrow> (ref option \<times> number) \<times> heap \<Rightarrow> ref \<Rightarrow> (ref option \<times> number) \<times> heap" where
  "forEachCallback_heap currentLocation sh r =
     (case sh of ((nearest, minDistance), h) \<Rightarrow>
        (let customer = customer_of (objects h ! r) in
         if \<not> truthy_number (latitude customer) \<or> \<not> truthy_number (longitude customer)
         then ((nearest, minDistance), h)
         else if truthy_string (status customer)
                 \<and> toLowerCase (status customer) = ''delivered''
         then ((nearest, minDistance), h)
         else (case (latitude customer, longitude customer) of
                 (Some lat, Some lon) \<Rightarrow>
                   (let d = calculateDistance (location.latitude currentLocation)
                              (location.longitude currentLocation) lat lon
                    in if js_less d minDistance
                       then (case new_object (EntryObject (spread_distance customer (Some d))) h of
                               (r', h') \<Rightarrow> ((Some r', d), h'))
                       else ((nearest, minDistance), h))
               | _ \<Rightarrow> ((nearest, minDistance), h))))"

definition getNearestCustomerInfo_heap ::
  "ref \<Rightarrow> location option \<Rightarrow> heap \<Rightarrow> ref option \<times> heap" where
  "getNearestCustomerInfo_heap customers currentLocation h =
     (case currentLocation of
        None \<Rightarrow> (None, h)
      | Some loc \<Rightarrow>
          (case foldl (forEachCallback_heap loc) ((None, Infinity), h) (arrays h ! customers) of
             ((nearest, minDistance), h') \<Rightarrow> (nearest, h')))"

section \<open>Vocabulary of the properties\<close>

text \<open>
  The status test of both callbacks, \<^verbatim>\<open>status.toLowerCase() === "delivered"\<close>, and
  the distance that \<^verbatim>\<open>calculateDistance\<close> gives from the device to a coordinate pair.
\<close>

abbreviation delivered :: "'a customer_scheme \<Rightarrow> bool" where
  "delivered c \<equiv> toLowerCase (status c) = ''delivered''"

abbreviation distanceFrom :: "location \<Rightarrow> real \<Rightarrow> real \<Rightarrow> number" where
  "distanceFrom loc lat lon \<equiv>
     calculateDistance (location.latitude loc) (location.longitude loc) lat lon"

text \<open>
  The distance that the \<^verbatim>\<open>forEach\<close> callback of \<^verbatim>\<open>getNearestCustomerInfo\<close> compares
  with \<^verbatim>\<open>minDistance\<close>; \<open>None\<close> for a customer at which the callback returns early.
  It is used in the proofs only.
\<close>

definition compared_distance :: "location \<Rightarrow> customer \<Rightarrow> number option" where
  "compared_distance loc c =
     (case (latitude c, longitude c) of
        (Some lat, Some lon) \<Rightarrow>
          (if lat \<noteq> 0 \<and> lon \<noteq> 0 \<and> \<not> delivered c then Some (distanceFrom loc lat lon)
           else None)
      | _ \<Rightarrow> None)"

text \<open>
  The sort key that the comparator \<open>sortCallback\<close> induces on entries whose distance is
  \<^verbatim>\<open>null\<close> or a finite number: entries with a distance first, by distance. It is used
  in the proofs only.
\<close>

definition rank_key :: "customerWithDistance \<Rightarrow> nat \<times> real" where
  "rank_key e = (case distance e of Some (Num r) \<Rightarrow> (0, r) | Some _ \<Rightarrow> (0, 0) | None \<Rightarrow> (1, 0))"

section \<open>Records for the examples\<close>

text \<open>
  A customer for the examples: identifier and name \<open>n\<close>, the given coordinates, order
  details and status, and every other field empty or absent.
\<close>

definition example_customer ::
  "string \<Rightarrow> real option \<Rightarrow> real option \<Rightarrow> string option \<Rightarrow> string \<Rightarrow> customer" where
  "example_customer n lat lon details st =
     \<lparr>id' = n, name = n, address = [], latitude = lat, longitude = lon,
      orderDetails = details, deliveryPerson = None, status = st,
      deliveryDate = [], createdAt = [], updatedAt = []\<rparr>"

definition example_location :: "real \<Rightarrow> real \<Rightarrow> location" where
  "example_location lat lon = \<lparr>location.latitude = lat, location.longitude = lon\<rparr>"

section \<open>Properties of the flash-message relay\<close>

lemma returned_run_flash_subset:
  "set (returned (run_flash cs s)) \<subseteq> set (stored cs) \<union> set_option s"
proof (induction cs arbitrary: s)
  case Nil
  show ?case by simp
next
  case (Cons c cs)
  show ?case
  proof (cases c)
    case (SetFlash m)
    have "set (returned (run_flash cs (Some m))) \<subseteq> set (stored cs) \<union> {m}"
      using Cons.IH [of "Some m"] by simp
    then show ?thesis using SetFlash by (auto simp: setFlash_def)
  next
    case ConsumeFlash
    have "set (returned (run_flash cs None)) \<subseteq> set (stored cs)"
      using Cons.IH [of None] by simp
    then show ?thesis using ConsumeFlash
      by (cases s) (auto simp: consumeFlash_def)
  qed
qed

lemma returned_run_flash_distinct:
  "distinct (stored cs) \<Longrightarrow> (\<forall>m. s = Some m \<longrightarrow> m \<notin> set (stored cs)) \<Longrightarrow>
   distinct (returned (run_flash cs s))"
proof (induction cs arbitrary: s)
  case Nil
  show ?case by simp
next
  case (Cons c cs)
  show ?case
  proof (cases c)
    case (SetFlash m)
    have "distinct (returned (run_flash cs (Some m)))"
      using Cons.IH [of "Some m"] Cons.prems(1) SetFlash by simp
    then show ?thesis using SetFlash by (simp add: setFlash_def)
  next
    case ConsumeFlash
    have d: "distinct (returned (run_flash cs None))"
      using Cons.IH [of None] Cons.prems(1) ConsumeFlash by simp
    have sub: "set (returned (run_flash cs None)) \<subseteq> set (stored cs)"
      using returned_run_flash_subset [of cs None] by simp
    show ?thesis
    proof (cases s)
      case None
      then show ?thesis using d ConsumeFlash by (simp add: consumeFlash_def)
    next
      case (Some m)
      then have "m \<notin> set (stored cs)" using Cons.prems(2) ConsumeFlash by simp
      then have "m \<notin> set (returned (run_flash cs None))" using sub by blast
      then show ?thesis using d ConsumeFlash Some by (simp add: consumeFlash_def)
    qed
  qed
qed

text \<open>
  Claim C10. The relay is a single-slot, read-once store. Whatever the slot held,
  \<^verbatim>\<open>consumeFlash\<close> right after \<^verbatim>\<open>setFlash(m)\<close> returns \<open>m\<close> and leaves the slot
  empty; \<^verbatim>\<open>consumeFlash\<close> on an empty slot returns null and leaves it empty; and in
  any sequence of calls started on an empty slot whose \<^verbatim>\<open>setFlash\<close> calls store
  pairwise different messages (so that a message names the call that stored it), no
  message is returned by two \<^verbatim>\<open>consumeFlash\<close> calls, and every returned message was
  stored by a call of the sequence.
\<close>

theorem flash_read_once:
  "consumeFlash (setFlash m s) = (Some m, None)
   \<and> consumeFlash None = (None, None)
   \<and> (distinct (stored cs) \<longrightarrow>
        distinct (returned (run_flash cs initial_flash))
        \<and> set (returned (run_flash cs initial_flash)) \<subseteq> set (stored cs))"
proof -
  have a: "consumeFlash (setFlash m s) = (Some m, None)"
    by (simp add: consumeFlash_def setFlash_def)
  have b: "consumeFlash None = (None, None)"
    by (simp add: consumeFlash_def)
  have c: "set (returned (run_flash cs initial_flash)) \<subseteq> set (stored cs)"
    using returned_run_flash_subset [of cs None] by (simp add: initial_flash_def)
  have d: "distinct (stored cs) \<Longrightarrow> distinct (returned (run_flash cs initial_flash))"
    using returned_run_flash_distinct [of cs None] by (simp add: initial_flash_def)
  from a b c d show ?thesis by blast
qed

theorem flash_read_once_witness:
  "distinct (stored [SetFlash ''saved'', ConsumeFlash, ConsumeFlash, SetFlash ''a'',
                     SetFlash ''b'', ConsumeFlash])
   \<and> run_flash [SetFlash ''saved'', ConsumeFlash, ConsumeFlash, SetFlash ''a'',
                 SetFlash ''b'', ConsumeFlash] initial_flash
       = [Some ''saved'', None, Some ''b'']
   \<and> distinct (returned (run_flash [SetFlash ''saved'', ConsumeFlash, ConsumeFlash,
                 SetFlash ''a'', SetFlash ''b'', ConsumeFlash] initial_flash))"
  using flash_read_once [of "''x''" None "[SetFlash ''saved'', ConsumeFlash, ConsumeFlash,
                     SetFlash ''a'', SetFlash ''b'', ConsumeFlash]"]
  by (simp add: setFlash_def consumeFlash_def initial_flash_def)

section \<open>Properties of the distance\<close>

text \<open>
  Facts of exact arithmetic, that is of \<open>calculateDistance\<close> and of
  \<open>calculateDistance_rounded 0\<close>: the term \<open>a\<close> of the haversine formula lies in
  \<open>[0, 1]\<close> for all real arguments, so with no rounding error neither square root is
  taken of a negative number.
\<close>

lemma cos_product:
  fixes u v :: real
  shows "cos u * cos v = (cos ((u + v) / 2))\<^sup>2 + (cos ((v - u) / 2))\<^sup>2 - 1"
proof -
  define s where "s = (u + v) / 2"
  define t where "t = (v - u) / 2"
  have u: "u = s - t" and v: "v = s + t"
    by (simp_all add: s_def t_def field_simps)
  have "cos u * cos v = (cos s * cos t + sin s * sin t) * (cos s * cos t - sin s * sin t)"
    unfolding u v by (simp add: cos_diff cos_add)
  also have "\<dots> = (cos s)\<^sup>2 * (cos t)\<^sup>2 - (sin s)\<^sup>2 * (sin t)\<^sup>2"
    by (simp add: algebra_simps power2_eq_square)
  also have "\<dots> = (cos s)\<^sup>2 + (cos t)\<^sup>2 - 1"
    by (simp add: sin_squared_eq algebra_simps)
  finally show ?thesis by (simp add: s_def t_def)
qed

lemma haversine_term_bounds:
  fixes u v m :: real
  defines "a \<equiv> sin ((v - u) / 2) * sin ((v - u) / 2) + cos u * cos v * sin m * sin m"
  shows "0 \<le> a" and "a \<le> 1"
proof -
  define cs where "cs = (cos ((u + v) / 2))\<^sup>2"
  define cd where "cd = (cos ((v - u) / 2))\<^sup>2"
  define sm where "sm = (sin m)\<^sup>2"
  have b: "0 \<le> cs" "cs \<le> 1" "0 \<le> cd" "cd \<le> 1" "0 \<le> sm" "sm \<le> 1"
    by (simp_all add: cs_def cd_def sm_def abs_square_le_1)
  have p: "cos u * cos v = cs + cd - 1"
    by (simp only: cos_product cs_def cd_def)
  have sd: "sin ((v - u) / 2) * sin ((v - u) / 2) = 1 - cd"
    using sin_squared_eq [of "(v - u) / 2"] by (simp add: cd_def power2_eq_square)
  have sm': "sin m * sin m = sm"
    by (simp add: sm_def power2_eq_square)
  have "a = sin ((v - u) / 2) * sin ((v - u) / 2) + (cos u * cos v) * (sin m * sin m)"
    by (simp only: a_def mult.assoc)
  then have "a = (1 - cd) + (cs + cd - 1) * sm"
    by (simp only: p sd sm')
  then have a1: "a = (1 - cd) * (1 - sm) + cs * sm"
    and a2: "1 - a = cd * (1 - sm) + (1 - cs) * sm"
    by (simp_all add: algebra_simps)
  show "0 \<le> a"
    unfolding a1 using b by (intro add_nonneg_nonneg mult_nonneg_nonneg) simp_all
  have "0 \<le> 1 - a"
    unfolding a2 using b by (intro add_nonneg_nonneg mult_nonneg_nonneg) simp_all
  then show "a \<le> 1" by simp
qed

lemma Math_atan2_nonneg: "0 \<le> y \<Longrightarrow> 0 \<le> x \<Longrightarrow> 0 \<le> Math_atan2 y x"
  by (simp add: Math_atan2_def)

lemma Math_round_nat: "0 \<le> x \<Longrightarrow> \<exists>n::nat. Math_round x = real n"
proof -
  assume "0 \<le> x"
  then have "0 \<le> \<lfloor>x + 1 / 2\<rfloor>" by simp
  then have "Math_round x = real (nat \<lfloor>x + 1 / 2\<rfloor>)" by (simp add: Math_round_def)
  then show ?thesis ..
qed

lemma calculateDistance_nat: "\<exists>n::nat. calculateDistance lat1 lon1 lat2 lon2 = Num (real n)"
proof -
  define a where "a = sin (((lat2 - lat1) * pi) / 180 / 2) * sin (((lat2 - lat1) * pi) / 180 / 2) +
              cos ((lat1 * pi) / 180) * cos ((lat2 * pi) / 180) *
              sin (((lon2 - lon1) * pi) / 180 / 2) * sin (((lon2 - lon1) * pi) / 180 / 2)"
  have e: "((lat2 - lat1) * pi) / 180 / 2 = ((lat2 * pi) / 180 - (lat1 * pi) / 180) / 2"
    by (simp add: field_simps)
  have a: "0 \<le> a" "a \<le> 1"
    unfolding a_def e by (rule haversine_term_bounds)+
  have "0 \<le> Math_atan2 (sqrt a) (sqrt (1 - a))"
    by (rule Math_atan2_nonneg) (use a in simp_all)
  then have "0 \<le> 6371000 * (2 * Math_atan2 (sqrt a) (sqrt (1 - a)))"
    by simp
  then obtain n :: nat where "Math_round (6371000 * (2 * Math_atan2 (sqrt a) (sqrt (1 - a)))) = real n"
    using Math_round_nat by blast
  then have "calculateDistance lat1 lon1 lat2 lon2 = Num (real n)"
    using a by (simp add: calculateDistance_def Let_def a_def)
  then show ?thesis ..
qed

lemma calculateDistance_sym:
  "calculateDistance lat1 lon1 lat2 lon2 = calculateDistance lat2 lon2 lat1 lon1"
proof -
  have s: "sin (x * pi / 180 / 2) * sin (x * pi / 180 / 2) = sin (- x * pi / 180 / 2) * sin (- x * pi / 180 / 2)" for x :: real
    by simp
  have "sin ((lat2 - lat1) * pi / 180 / 2) * sin ((lat2 - lat1) * pi / 180 / 2) +
              cos ((lat1 * pi) / 180) * cos ((lat2 * pi) / 180) *
              sin ((lon2 - lon1) * pi / 180 / 2) * sin ((lon2 - lon1) * pi / 180 / 2)
      = sin ((lat1 - lat2) * pi / 180 / 2) * sin ((lat1 - lat2) * pi / 180 / 2) +
              cos ((lat2 * pi) / 180) * cos ((lat1 * pi) / 180) *
              sin ((lon1 - lon2) * pi / 180 / 2) * sin ((lon1 - lon2) * pi / 180 / 2)"
    using s [of "lat2 - lat1"] s [of "lon2 - lon1"] by (simp add: mult.commute)
  then show ?thesis
    by (simp add: calculateDistance_def Let_def)
qed

lemma Math_atan2_0_1: "Math_atan2 0 1 = 0"
  by (simp add: Math_atan2_def)

lemma Math_round_0: "Math_round 0 = 0"
  by (simp add: Math_round_def)

lemma calculateDistance_self: "calculateDistance lat lon lat lon = Num 0"
  by (simp add: calculateDistance_def Math_atan2_0_1 Math_round_0)

lemma calculateDistance_mirror_latitude:
  "calculateDistance lat lon (lat - t) lon = calculateDistance lat lon (lat + t) lon"
proof -
  have "sin ((lat - t - lat) * pi / 180 / 2) * sin ((lat - t - lat) * pi / 180 / 2)
        = sin ((lat + t - lat) * pi / 180 / 2) * sin ((lat + t - lat) * pi / 180 / 2)"
  proof -
    have "(lat - t - lat) * pi / 180 / 2 = - ((lat + t - lat) * pi / 180 / 2)"
      by simp
    then show ?thesis by (simp only: sin_minus minus_mult_minus)
  qed
  then show ?thesis
    by (simp add: calculateDistance_def Let_def)
qed

section \<open>Properties of strings and of the spread object\<close>

lemma spread_distance_simps [simp]:
  "distance (spread_distance c d) = d"
  "customer.truncate (spread_distance c d) = c"
  "status (spread_distance c d) = status c"
  "latitude (spread_distance c d) = latitude c"
  "longitude (spread_distance c d) = longitude c"
  by (simp_all add: spread_distance_def customer.defs customerWithDistance.defs)

lemma string_includes_sublist: "string_includes s q \<longleftrightarrow> sublist q s"
  by (induction s) (simp_all add: sublist_Cons_right)

section \<open>Properties of the filter callback\<close>

lemma status_or_empty: "(if truthy_string s then s else []) = s"
  by (simp add: truthy_string_def)

lemma toLowerCase_eq_Nil: "toLowerCase s = [] \<longleftrightarrow> s = []"
  by (simp add: toLowerCase_def)

lemma toLowerCase_Nil: "toLowerCase [] = []"
  by (simp add: toLowerCase_def)

lemma filterCallback_iff:
  "filterCallback searchQuery c \<longleftrightarrow>
     toLowerCase (status c) \<noteq> ''delivered'' \<and>
     (trim searchQuery = []
      \<or> sublist (toLowerCase (trim searchQuery)) (toLowerCase (name c))
      \<or> sublist (toLowerCase (trim searchQuery)) (toLowerCase (address c))
      \<or> (\<exists>p. deliveryPerson c = Some p \<and> sublist (toLowerCase (trim searchQuery)) (toLowerCase p))
      \<or> (\<exists>d. orderDetails c = Some d \<and> sublist (toLowerCase (trim searchQuery)) (toLowerCase d)))"
proof -
  have opt: "(case f of None \<Rightarrow> False
               | Some p \<Rightarrow> truthy_string p \<and> string_includes (toLowerCase p) (toLowerCase q))
             \<longleftrightarrow> (\<exists>p. f = Some p \<and> sublist (toLowerCase q) (toLowerCase p))"
    if "q \<noteq> []" for f :: "string option" and q :: string
    using that
    by (cases f) (auto simp: truthy_string_def string_includes_sublist toLowerCase_eq_Nil toLowerCase_Nil)
  show ?thesis
  proof (cases "trim searchQuery = []")
    case True
    then show ?thesis
      by (simp add: filterCallback_def status_or_empty truthy_string_def toLowerCase_eq_Nil)
  next
    case False
    then show ?thesis
      by (simp add: filterCallback_def status_or_empty Let_def opt string_includes_sublist)
         (simp add: truthy_string_def toLowerCase_eq_Nil)
  qed
qed

lemma filteredCustomers_delivered_first:
  "filteredCustomers (filter (\<lambda>c. \<not> delivered c) customers) searchQuery
   = filteredCustomers customers searchQuery"
proof -
  have "\<not> delivered c \<and> filterCallback searchQuery c \<longleftrightarrow> filterCallback searchQuery c" for c
    by (auto simp: filterCallback_iff)
  then show ?thesis
    by (simp add: filteredCustomers_def)
qed

lemma mapCallback_fields:
  "customer.truncate (mapCallback currentLocation c) = c"
  "status (mapCallback currentLocation c) = status c"
  by (simp_all add: mapCallback_def Let_def)

lemma mapCallback_distance:
  "distance (mapCallback currentLocation c) = None
   \<or> (\<exists>k::nat. distance (mapCallback currentLocation c) = Some (Num (real k)))"
proof (cases "distance (mapCallback currentLocation c)")
  case None
  then show ?thesis by simp
next
  case (Some d)
  then obtain loc lat lon where "d = distanceFrom loc lat lon"
    by (auto simp: mapCallback_def Let_def split: option.splits if_splits)
  then show ?thesis using Some calculateDistance_nat by auto
qed

lemma customersWithDistance_distance:
  "\<forall>e\<in>set (customersWithDistance customers searchQuery currentLocation).
     distance e = None \<or> (\<exists>r. distance e = Some (Num r))"
  using mapCallback_distance by (fastforce simp: customersWithDistance_def)

section \<open>Properties of the sort\<close>

text \<open>
  On entries whose distance is \<^verbatim>\<open>null\<close> or a finite number the comparator orders by
  \<open>rank_key\<close>, and the insertion sort of the model is the library's stable
  \<open>sort_key\<close>.
\<close>

lemma set_sort_insert: "set (sort_insert cmp x ys) = insert x (set ys)"
  by (induction ys) auto

lemma set_Array_sort: "set (Array_sort cmp xs) = set xs"
  by (induction xs) (simp_all add: Array_sort_def set_sort_insert)

lemma mset_sort_insert: "mset (sort_insert cmp x ys) = add_mset x (mset ys)"
  by (induction ys) auto

lemma mset_Array_sort: "mset (Array_sort cmp xs) = mset xs"
  by (induction xs) (simp_all add: Array_sort_def mset_sort_insert)

lemma sortCallback_rank_key:
  assumes "distance x = None \<or> (\<exists>r. distance x = Some (Num r))"
    and "distance y = None \<or> (\<exists>r. distance y = Some (Num r))"
  shows "js_less (Num 0) (sortCallback x y) \<longleftrightarrow> \<not> rank_key x \<le> rank_key y"
  using assms by (auto simp: sortCallback_def rank_key_def)

lemma sort_insert_insort_key:
  assumes "distance x = None \<or> (\<exists>r. distance x = Some (Num r))"
    and "\<forall>y\<in>set ys. distance y = None \<or> (\<exists>r. distance y = Some (Num r))"
  shows "sort_insert sortCallback x ys = insort_key rank_key x ys"
  using assms(2)
proof (induction ys)
  case Nil
  show ?case by simp
next
  case (Cons y ys)
  have "js_less (Num 0) (sortCallback x y) \<longleftrightarrow> \<not> rank_key x \<le> rank_key y"
    using assms(1) Cons.prems by (intro sortCallback_rank_key) simp_all
  then show ?case using Cons by simp
qed

lemma Array_sort_sort_key:
  "\<forall>y\<in>set xs. distance y = None \<or> (\<exists>r. distance y = Some (Num r)) \<Longrightarrow>
   Array_sort sortCallback xs = sort_key rank_key xs"
proof (induction xs)
  case Nil
  show ?case by (simp add: Array_sort_def)
next
  case (Cons x xs)
  have ih: "Array_sort sortCallback xs = sort_key rank_key xs"
    using Cons by simp
  have "sort_insert sortCallback x (sort_key rank_key xs)
        = insort_key rank_key x (sort_key rank_key xs)"
    using Cons.prems by (intro sort_insert_insort_key) simp_all
  then show ?case using ih by (simp add: Array_sort_def)
qed

lemma rank_key_distance:
  assumes "distance x = None \<or> (\<exists>r. distance x = Some (Num r))"
    and "distance y = None \<or> (\<exists>r. distance y = Some (Num r))"
  shows "rank_key x = rank_key y \<longleftrightarrow> distance x = distance y"
  using assms by (auto simp: rank_key_def)

lemma sortedCustomers_sort_key:
  "sortedCustomers customers searchQuery currentLocation
   = sort_key rank_key (customersWithDistance customers searchQuery currentLocation)"
  unfolding sortedCustomers_def
  by (rule Array_sort_sort_key) (rule customersWithDistance_distance)

lemma sortedCustomers_stable:
  "filter (\<lambda>e. distance e = d) (sortedCustomers customers searchQuery currentLocation)
   = filter (\<lambda>e. distance e = d) (customersWithDistance customers searchQuery currentLocation)"
proof -
  let ?xs = "customersWithDistance customers searchQuery currentLocation"
  have inv: "\<forall>e\<in>set ?xs. distance e = None \<or> (\<exists>r. distance e = Some (Num r))"
    by (rule customersWithDistance_distance)
  show ?thesis
  proof (cases "\<exists>x\<in>set ?xs. distance x = d")
    case False
    then have "filter (\<lambda>e. distance e = d) ?xs = []"
      and "filter (\<lambda>e. distance e = d) (sort_key rank_key ?xs) = []"
      by (simp_all add: filter_empty_conv)
    then show ?thesis by (simp add: sortedCustomers_sort_key)
  next
    case True
    then obtain x where x: "x \<in> set ?xs" "distance x = d" by blast
    have eq: "(distance e = d) = (rank_key e = rank_key x)" if "e \<in> set ?xs" for e
      using rank_key_distance [of e x] inv that x by auto
    have "filter (\<lambda>e. distance e = d) (sort_key rank_key ?xs)
          = filter (\<lambda>e. rank_key e = rank_key x) (sort_key rank_key ?xs)"
      by (rule filter_cong) (simp_all add: eq)
    also have "\<dots> = filter (\<lambda>e. rank_key e = rank_key x) ?xs"
      by (rule sort_key_stable)
    also have "\<dots> = filter (\<lambda>e. distance e = d) ?xs"
      by (rule filter_cong) (simp_all add: eq)
    finally show ?thesis by (simp add: sortedCustomers_sort_key)
  qed
qed

lemma sortedCustomers_sorted:
  assumes "i < j" and "j < length (sortedCustomers customers searchQuery currentLocation)"
  shows "rank_key (sortedCustomers customers searchQuery currentLocation ! i)
         \<le> rank_key (sortedCustomers customers searchQuery currentLocation ! j)"
proof -
  have "sorted (map rank_key (sortedCustomers customers searchQuery currentLocation))"
    by (simp add: sortedCustomers_sort_key)
  then show ?thesis
    using assms sorted_nth_mono [of "map rank_key (sortedCustomers customers searchQuery currentLocation)" i j]
    by simp
qed

section \<open>Properties of the scan for the nearest customer\<close>

lemma delivered_truthy: "delivered c \<Longrightarrow> truthy_string (status c)"
  by (auto simp: truthy_string_def toLowerCase_Nil)

lemma forEachCallback_skip:
  "compared_distance loc c = None \<Longrightarrow> forEachCallback loc st c = st"
  by (cases st)
     (auto simp: compared_distance_def forEachCallback_def truthy_number_def delivered_truthy
           split: option.splits if_splits)

lemma forEachCallback_compare:
  "compared_distance loc c = Some d \<Longrightarrow>
   forEachCallback loc (n, m) c =
     (if js_less d m then (Some (spread_distance c (Some d)), d) else (n, m))"
  by (auto simp: compared_distance_def forEachCallback_def truthy_number_def Let_def
           split: option.splits if_splits)

lemma compared_distance_nat:
  "compared_distance loc c = Some d \<Longrightarrow> \<exists>k::nat. d = Num (real k)"
  using calculateDistance_nat
  by (auto simp: compared_distance_def split: option.splits if_splits)

lemma foldl_forEachCallback_skip:
  "\<forall>c\<in>set cs. compared_distance loc c = None \<Longrightarrow> foldl (forEachCallback loc) st cs = st"
  by (induction cs arbitrary: st) (simp_all add: forEachCallback_skip)

lemma foldl_forEachCallback_keep:
  "\<forall>c\<in>set cs. \<forall>d. compared_distance loc c = Some d \<longrightarrow> \<not> js_less d m \<Longrightarrow>
   foldl (forEachCallback loc) (n, m) cs = (n, m)"
proof (induction cs)
  case Nil
  show ?case by simp
next
  case (Cons c cs)
  have "forEachCallback loc (n, m) c = (n, m)"
  proof (cases "compared_distance loc c")
    case None
    then show ?thesis by (rule forEachCallback_skip)
  next
    case (Some d)
    then have "\<not> js_less d m" using Cons.prems by simp
    then show ?thesis using Some by (simp add: forEachCallback_compare)
  qed
  then show ?case using Cons by simp
qed

lemma foldl_forEachCallback_min:
  "snd (foldl (forEachCallback loc) (n, m) cs) = m
   \<or> (\<exists>c\<in>set cs. compared_distance loc c = Some (snd (foldl (forEachCallback loc) (n, m) cs)))"
proof (induction cs rule: rev_induct)
  case Nil
  show ?case by simp
next
  case (snoc c cs)
  obtain n' m' where st: "foldl (forEachCallback loc) (n, m) cs = (n', m')"
    by (cases "foldl (forEachCallback loc) (n, m) cs")
  show ?case
  proof (cases "compared_distance loc c")
    case None
    then show ?thesis using snoc st by (auto simp: forEachCallback_skip)
  next
    case (Some d)
    then show ?thesis using snoc st by (auto simp: forEachCallback_compare)
  qed
qed

lemma getNearestCustomerInfo_first_minimum:
  assumes c: "compared_distance loc c = Some d"
    and pre: "\<forall>x\<in>set pre. \<forall>dx. compared_distance loc x = Some dx \<longrightarrow> js_less d dx"
    and post: "\<forall>x\<in>set post. \<forall>dx. compared_distance loc x = Some dx \<longrightarrow> \<not> js_less dx d"
  shows "getNearestCustomerInfo (pre @ c # post) (Some loc) = Some (spread_distance c (Some d))"
proof -
  obtain n m where st: "foldl (forEachCallback loc) (None, Infinity) pre = (n, m)"
    by (cases "foldl (forEachCallback loc) (None, Infinity) pre")
  obtain k :: nat where d: "d = Num (real k)"
    using compared_distance_nat [OF c] by blast
  have "m = Infinity \<or> (\<exists>x\<in>set pre. compared_distance loc x = Some m)"
    using foldl_forEachCallback_min [of loc None Infinity pre] st by simp
  then have "js_less d m"
    using pre d by auto
  then have "forEachCallback loc (n, m) c = (Some (spread_distance c (Some d)), d)"
    using c by (simp add: forEachCallback_compare)
  moreover have "foldl (forEachCallback loc) (Some (spread_distance c (Some d)), d) post
                 = (Some (spread_distance c (Some d)), d)"
    using post by (rule foldl_forEachCallback_keep)
  ultimately show ?thesis
    using st by (simp add: getNearestCustomerInfo_def)
qed

section \<open>Properties of the definitions with parameters\<close>

text \<open>
  With the ASCII string functions and no rounding error the definitions with parameters
  are the ones above. Where the exact value of \<open>a\<close> is \<open>1\<close>, any rounding error
  upwards gives \<^verbatim>\<open>NaN\<close>; it is \<open>1\<close> for the points \<open>(-12, -179)\<close> and \<open>(12, 1)\<close>,
  which are antipodal.
\<close>

lemma calculateDistance_rounded_exact:
  "calculateDistance_rounded 0 lat1 lon1 lat2 lon2 = calculateDistance lat1 lon1 lat2 lon2"
  by (simp add: calculateDistance_rounded_def calculateDistance_def)

lemma calculateDistance_rounded_above_one:
  assumes "sin (((lat2 - lat1) * pi) / 180 / 2) * sin (((lat2 - lat1) * pi) / 180 / 2) +
           cos ((lat1 * pi) / 180) * cos ((lat2 * pi) / 180) *
           sin (((lon2 - lon1) * pi) / 180 / 2) * sin (((lon2 - lon1) * pi) / 180 / 2) = 1"
    and "0 < e"
  shows "calculateDistance_rounded e lat1 lon1 lat2 lon2 = NaN"
proof -
  have "1 + e < 0 \<or> 1 - (1 + e) < 0"
    using assms(2) by simp
  then show ?thesis
    by (simp only: calculateDistance_rounded_def Let_def assms(1) if_True)
qed

lemma antipodal_term:
  "sin (((12 - (- 12)) * pi) / 180 / 2) * sin (((12 - (- 12)) * pi) / 180 / 2) +
   cos (((- 12) * pi) / 180) * cos ((12 * pi) / 180) *
   sin (((1 - (- 179)) * pi) / 180 / 2) * sin (((1 - (- 179)) * pi) / 180 / 2) = (1::real)"
proof -
  have s: "sin (((12 - (- 12)) * pi) / 180 / 2) = sin (pi / 15)"
    by simp
  have c1: "cos (((- 12) * pi) / 180) = cos (pi / 15)"
  proof -
    have "((- 12) * pi) / 180 = - (pi / 15)" by simp
    then show ?thesis by (simp only: cos_minus)
  qed
  have c2: "cos ((12 * pi) / 180) = cos (pi / 15)"
    by simp
  have l: "sin (((1 - (- 179)) * pi) / 180 / 2) = 1"
  proof -
    have "((1 - (- 179)) * pi) / 180 / 2 = pi / 2" by simp
    then show ?thesis by (simp only: sin_pi_half)
  qed
  have "sin (pi / 15) * sin (pi / 15) + cos (pi / 15) * cos (pi / 15) * 1 * 1 = (1::real)"
    using sin_cos_squared_add [of "pi / 15"] by (simp add: power2_eq_square)
  then show ?thesis
    by (simp only: s c1 c2 l)
qed

lemma Math_atan2_sin_cos:
  assumes "0 < x" and "x < pi / 2"
  shows "Math_atan2 (sqrt (sin x * sin x)) (sqrt (1 - sin x * sin x)) = x"
proof -
  have s: "0 < sin x" using assms by (intro sin_gt_zero) simp_all
  have c: "0 < cos x" using assms by (intro cos_gt_zero_pi) simp_all
  have "1 - sin x * sin x = cos x * cos x"
    using sin_cos_squared_add [of x] by (simp add: power2_eq_square)
  then have "sqrt (1 - sin x * sin x) = cos x" using c by simp
  moreover have "sqrt (sin x * sin x) = sin x" using s by simp
  moreover have "arctan (sin x / cos x) = x"
    using arctan_tan [of x] assms by (simp add: tan_def)
  ultimately show ?thesis using c by (simp add: Math_atan2_def)
qed

lemma calculateDistance_one_degree_north:
  "calculateDistance lat lon (lat + 1) lon = Num (Math_round (6371000 * (2 * (pi / 360))))"
proof -
  define x :: real where "x = pi / 360"
  have x: "0 < x" "x < pi / 2"
    by (simp_all add: x_def)
  have b: "\<not> (sin x * sin x < 0 \<or> 1 - sin x * sin x < 0)"
  proof -
    have "0 \<le> sin x * sin x" by simp
    moreover have "1 - sin x * sin x = cos x * cos x"
      using sin_cos_squared_add [of x] by (simp add: power2_eq_square)
    then have "0 \<le> 1 - sin x * sin x" by simp
    ultimately show ?thesis by linarith
  qed
  have a: "sin (((lat + 1 - lat) * pi) / 180 / 2) * sin (((lat + 1 - lat) * pi) / 180 / 2) +
           cos ((lat * pi) / 180) * cos (((lat + 1) * pi) / 180) *
           sin (((lon - lon) * pi) / 180 / 2) * sin (((lon - lon) * pi) / 180 / 2)
           = sin x * sin x"
    by (simp add: x_def)
  have "calculateDistance lat lon (lat + 1) lon
        = (if sin x * sin x < 0 \<or> 1 - sin x * sin x < 0 then NaN
           else Num (Math_round (6371000 *
                  (2 * Math_atan2 (sqrt (sin x * sin x)) (sqrt (1 - sin x * sin x))))))"
    by (simp only: calculateDistance_def Let_def a)
  also have "\<dots> = Num (Math_round (6371000 * (2 * x)))"
    by (simp only: b if_False Math_atan2_sin_cos [OF x])
  finally show ?thesis by (simp only: x_def)
qed

lemma one_degree_positive:
  "\<exists>k::nat. 0 < k \<and> Math_round (6371000 * (2 * (pi / 360))) = real k"
proof -
  have "1 \<le> 6371000 * (2 * (pi / 360))"
    using pi_ge_two by simp
  then have "1 \<le> \<lfloor>6371000 * (2 * (pi / 360)) + 1 / 2\<rfloor>"
    by linarith
  then have "0 < nat \<lfloor>6371000 * (2 * (pi / 360)) + 1 / 2\<rfloor>"
    and "Math_round (6371000 * (2 * (pi / 360))) = real (nat \<lfloor>6371000 * (2 * (pi / 360)) + 1 / 2\<rfloor>)"
    by (simp_all add: Math_round_def)
  then show ?thesis by blast
qed

lemma filterCallback_with_ascii:
  "filterCallback_with toLowerCase trim = filterCallback"
  by (intro ext) (simp add: filterCallback_with_def filterCallback_def)

lemma mapCallback_with_exact:
  "mapCallback_with (\<lambda>lat1 lon1 lat2 lon2. 0) = mapCallback"
  by (intro ext)
     (simp add: mapCallback_with_def mapCallback_def calculateDistance_rounded_exact
        split: option.splits)

lemma sortedCustomers_with_ascii_exact:
  "sortedCustomers_with toLowerCase trim (\<lambda>lat1 lon1 lat2 lon2. 0) = sortedCustomers"
  by (intro ext)
     (simp add: sortedCustomers_with_def sortedCustomers_def customersWithDistance_with_def
        customersWithDistance_def filteredCustomers_with_def filteredCustomers_def
        filterCallback_with_ascii mapCallback_with_exact)

lemma mapCallback_with_truncate:
  "customer.truncate (mapCallback_with err currentLocation c) = c"
  by (simp add: mapCallback_with_def Let_def)

lemma filterCallback_with_iff:
  "filterCallback_with lower trm searchQuery c \<longleftrightarrow>
     lower (status c) \<noteq> ''delivered'' \<and>
     (lower (trm searchQuery) = []
      \<or> sublist (lower (trm searchQuery)) (lower (name c))
      \<or> sublist (lower (trm searchQuery)) (lower (address c))
      \<or> (\<exists>p. deliveryPerson c = Some p \<and> p \<noteq> []
             \<and> sublist (lower (trm searchQuery)) (lower p))
      \<or> (\<exists>d. orderDetails c = Some d \<and> d \<noteq> []
             \<and> sublist (lower (trm searchQuery)) (lower d)))"
proof -
  have opt: "(case f of None \<Rightarrow> False
               | Some p \<Rightarrow> truthy_string p \<and> string_includes (lower p) q)
             \<longleftrightarrow> (\<exists>p. f = Some p \<and> p \<noteq> [] \<and> sublist q (lower p))"
    for f :: "string option" and q :: string
    by (cases f) (auto simp: truthy_string_def string_includes_sublist)
  show ?thesis
    by (simp add: filterCallback_with_def status_or_empty Let_def opt string_includes_sublist)
       (simp add: truthy_string_def)
qed

section \<open>Unfolding the definitions on examples\<close>

lemmas ex_defs = example_customer_def example_location_def
lemmas rank_defs = sortedCustomers_def customersWithDistance_def filteredCustomers_def
  filterCallback_def mapCallback_def Array_sort_def sortCallback_def toLowerCase_def
  toLowerCase_char_def truthy_string_def truthy_number_def trim_def isWhiteSpace_def

lemmas with_defs = sortedCustomers_with_def customersWithDistance_with_def
  filteredCustomers_with_def filterCallback_with_def mapCallback_with_def Array_sort_def
  sortCallback_def toLowerCase_def toLowerCase_char_def truthy_string_def truthy_number_def
  trim_def isWhiteSpace_def

section \<open>The claims about the ranking\<close>

text \<open>
  The order with exact distances. With no rounding error every attached distance is
  \<^verbatim>\<open>null\<close> or a finite number, and then \<open>sortedCustomers\<close> puts every entry with a
  distance before every entry without one (an entry that follows one without a distance
  has none either); of two entries with a distance the later one is not nearer; for
  every value \<open>d\<close> of the distance field, \<^verbatim>\<open>null\<close> included, the entries with that
  value come in the order of the input (the mapped, filtered customer list); and the
  output is a rearrangement of that input.
\<close>

lemma ranked_order_exact:
  "(\<forall>i j. i < j \<and> j < length (sortedCustomers customers searchQuery currentLocation)
       \<and> distance (sortedCustomers customers searchQuery currentLocation ! i) = None
     \<longrightarrow> distance (sortedCustomers customers searchQuery currentLocation ! j) = None)
   \<and> (\<forall>i j a b. i < j \<and> j < length (sortedCustomers customers searchQuery currentLocation)
       \<and> distance (sortedCustomers customers searchQuery currentLocation ! i) = Some a
       \<and> distance (sortedCustomers customers searchQuery currentLocation ! j) = Some b
     \<longrightarrow> (\<exists>x y. a = Num x \<and> b = Num y \<and> x \<le> y))
   \<and> (\<forall>d. filter (\<lambda>e. distance e = d) (sortedCustomers customers searchQuery currentLocation)
         = filter (\<lambda>e. distance e = d)
             (map (mapCallback currentLocation) (filter (filterCallback searchQuery) customers)))
   \<and> mset (sortedCustomers customers searchQuery currentLocation)
       = mset (map (mapCallback currentLocation) (filter (filterCallback searchQuery) customers))"
proof -
  let ?out = "sortedCustomers customers searchQuery currentLocation"
  have inv: "distance e = None \<or> (\<exists>r. distance e = Some (Num r))" if "e \<in> set ?out" for e
    using that customersWithDistance_distance [of customers searchQuery currentLocation]
    by (simp add: sortedCustomers_def set_Array_sort)
  have a: "distance (?out ! j) = None"
    if "i < j" "j < length ?out" "distance (?out ! i) = None" for i j
  proof -
    have "rank_key (?out ! i) \<le> rank_key (?out ! j)"
      using that(1,2) by (rule sortedCustomers_sorted)
    moreover have "?out ! j \<in> set ?out" using that(2) by simp
    ultimately show ?thesis
      using that(3) inv [of "?out ! j"] by (auto simp: rank_key_def)
  qed
  have b: "\<exists>x y. a = Num x \<and> b = Num y \<and> x \<le> y"
    if "i < j" "j < length ?out" "distance (?out ! i) = Some a" "distance (?out ! j) = Some b"
    for i j a b
  proof -
    have "rank_key (?out ! i) \<le> rank_key (?out ! j)"
      using that(1,2) by (rule sortedCustomers_sorted)
    moreover have "?out ! j \<in> set ?out" "?out ! i \<in> set ?out" using that(1,2) by simp_all
    ultimately show ?thesis
      using that(3,4) inv [of "?out ! j"] inv [of "?out ! i"] by (auto simp: rank_key_def)
  qed
  have c: "filter (\<lambda>e. distance e = d) ?out
         = filter (\<lambda>e. distance e = d)
             (map (mapCallback currentLocation) (filter (filterCallback searchQuery) customers))"
    for d
    using sortedCustomers_stable [of d customers searchQuery currentLocation]
    by (simp add: customersWithDistance_def filteredCustomers_def)
  have d: "mset ?out
       = mset (map (mapCallback currentLocation) (filter (filterCallback searchQuery) customers))"
    by (simp add: sortedCustomers_def mset_Array_sort customersWithDistance_def
          filteredCustomers_def)
  from a b c d show ?thesis by blast
qed

lemma ranked_order_exact_example:
  "sortedCustomers
     [example_customer ''X'' None None None ''pending'',
      example_customer ''A'' (Some 1) (Some 1) None ''pending'',
      example_customer ''B'' (Some 1) (Some 1) None ''cancelled'']
     [] (Some (example_location 1 1))
   = [spread_distance (example_customer ''A'' (Some 1) (Some 1) None ''pending'') (Some (Num 0)),
      spread_distance (example_customer ''B'' (Some 1) (Some 1) None ''cancelled'') (Some (Num 0)),
      spread_distance (example_customer ''X'' None None None ''pending'') None]
   \<and> filter (\<lambda>e. distance e = Some (Num 0))
       (map (mapCallback (Some (example_location 1 1)))
         (filter (filterCallback [])
           [example_customer ''X'' None None None ''pending'',
            example_customer ''A'' (Some 1) (Some 1) None ''pending'',
            example_customer ''B'' (Some 1) (Some 1) None ''cancelled'']))
     = [spread_distance (example_customer ''A'' (Some 1) (Some 1) None ''pending'') (Some (Num 0)),
        spread_distance (example_customer ''B'' (Some 1) (Some 1) None ''cancelled'') (Some (Num 0))]"
proof -
  let ?cs = "[example_customer ''X'' None None None ''pending'',
      example_customer ''A'' (Some 1) (Some 1) None ''pending'',
      example_customer ''B'' (Some 1) (Some 1) None ''cancelled'']"
  have out: "sortedCustomers ?cs [] (Some (example_location 1 1))
   = [spread_distance (example_customer ''A'' (Some 1) (Some 1) None ''pending'') (Some (Num 0)),
      spread_distance (example_customer ''B'' (Some 1) (Some 1) None ''cancelled'') (Some (Num 0)),
      spread_distance (example_customer ''X'' None None None ''pending'') None]"
    by (simp add: rank_defs ex_defs calculateDistance_self)
  have "filter (\<lambda>e. distance e = Some (Num 0)) (sortedCustomers ?cs [] (Some (example_location 1 1)))
    = filter (\<lambda>e. distance e = Some (Num 0))
       (map (mapCallback (Some (example_location 1 1))) (filter (filterCallback []) ?cs))"
    using ranked_order_exact [of ?cs "[]" "Some (example_location 1 1)"] by blast
  then show ?thesis unfolding out by simp
qed

text \<open>
  Claim C1. A customer at the antipode of the device: device at \<open>(-12, -179)\<close>, \<open>A\<close> at
  \<open>(-11, -179)\<close>, \<open>N\<close> at \<open>(12, 1)\<close> and \<open>B\<close> at the device's own position, all
  pending, no query. For \<open>N\<close> the exact value of \<open>a\<close> is \<open>1\<close> and double arithmetic
  gives \<open>1.0000000000000002\<close>, a rounding error of \<open>2\<^sup>-\<^sup>5\<^sup>2\<close>, so the distance of
  \<open>N\<close> is \<^verbatim>\<open>NaN\<close>. Every comparison with \<open>N\<close> then returns \<^verbatim>\<open>NaN\<close>, the sort leaves
  the array in its input order, and the result has \<open>A\<close>, at \<open>k > 0\<close> metres, before
  \<open>B\<close>, at \<open>0\<close> metres: the entries with a distance are not in non-decreasing order.
\<close>

theorem ranked_across_NaN:
  "\<exists>k::nat. 0 < k \<and>
     sortedCustomers_with toLowerCase trim
       (\<lambda>lat1 lon1 lat2 lon2. if lat2 = 12 \<and> lon2 = 1 then 1 / 2 ^ 52 else 0)
       [example_customer ''A'' (Some (- 11)) (Some (- 179)) None ''pending'',
        example_customer ''N'' (Some 12) (Some 1) None ''pending'',
        example_customer ''B'' (Some (- 12)) (Some (- 179)) None ''pending'']
       [] (Some (example_location (- 12) (- 179)))
     = [spread_distance (example_customer ''A'' (Some (- 11)) (Some (- 179)) None ''pending'')
          (Some (Num (real k))),
        spread_distance (example_customer ''N'' (Some 12) (Some 1) None ''pending'')
          (Some NaN),
        spread_distance (example_customer ''B'' (Some (- 12)) (Some (- 179)) None ''pending'')
          (Some (Num 0))]"
proof -
  obtain k :: nat where k: "0 < k" "Math_round (6371000 * (2 * (pi / 360))) = real k"
    using one_degree_positive by blast
  have dA: "calculateDistance_rounded 0 (- 12) (- 179) (- 11) (- 179) = Num (real k)"
    using calculateDistance_one_degree_north [of "- 12" "- 179"] k(2)
    by (simp add: calculateDistance_rounded_exact)
  have dN: "calculateDistance_rounded (1 / 2 ^ 52) (- 12) (- 179) 12 1 = NaN"
    by (rule calculateDistance_rounded_above_one [OF antipodal_term]) simp
  have dN': "calculateDistance_rounded (1 / 4503599627370496) (- 12) (- 179) 12 1 = NaN"
    using dN by simp
  have dB: "calculateDistance_rounded 0 (- 12) (- 179) (- 12) (- 179) = Num 0"
    by (simp add: calculateDistance_rounded_exact calculateDistance_self)
  have "sortedCustomers_with toLowerCase trim
       (\<lambda>lat1 lon1 lat2 lon2. if lat2 = 12 \<and> lon2 = 1 then 1 / 2 ^ 52 else 0)
       [example_customer ''A'' (Some (- 11)) (Some (- 179)) None ''pending'',
        example_customer ''N'' (Some 12) (Some 1) None ''pending'',
        example_customer ''B'' (Some (- 12)) (Some (- 179)) None ''pending'']
       [] (Some (example_location (- 12) (- 179)))
     = [spread_distance (example_customer ''A'' (Some (- 11)) (Some (- 179)) None ''pending'')
          (Some (Num (real k))),
        spread_distance (example_customer ''N'' (Some 12) (Some 1) None ''pending'')
          (Some NaN),
        spread_distance (example_customer ''B'' (Some (- 12)) (Some (- 179)) None ''pending'')
          (Some (Num 0))]"
    by (simp add: with_defs ex_defs dA dN' dB)
  then show ?thesis using k(1) by blast
qed

text \<open>
  Claim C2. No entry of \<open>sortedCustomers\<close> has a status whose lower-case form is
  \<^verbatim>\<open>delivered\<close>, and removing the delivered customers from the input beforehand
  changes nothing: they are out before the query and the distance are looked at.
\<close>

theorem delivered_never_ranked:
  "(\<forall>e\<in>set (sortedCustomers customers searchQuery currentLocation). \<not> delivered e)
   \<and> sortedCustomers customers searchQuery currentLocation
       = sortedCustomers (filter (\<lambda>c. \<not> delivered c) customers) searchQuery currentLocation"
proof -
  have "\<not> delivered e" if "e \<in> set (sortedCustomers customers searchQuery currentLocation)" for e
  proof -
    from that obtain c where c: "c \<in> set customers" "filterCallback searchQuery c"
      and e: "e = mapCallback currentLocation c"
      by (auto simp: sortedCustomers_def set_Array_sort customersWithDistance_def
            filteredCustomers_def)
    from c(2) have "\<not> delivered c" by (simp add: filterCallback_iff)
    then show ?thesis by (simp add: e mapCallback_fields)
  qed
  moreover have "sortedCustomers customers searchQuery currentLocation
       = sortedCustomers (filter (\<lambda>c. \<not> delivered c) customers) searchQuery currentLocation"
    by (simp add: sortedCustomers_def customersWithDistance_def filteredCustomers_delivered_first)
  ultimately show ?thesis by blast
qed

theorem delivered_never_ranked_witness:
  "sortedCustomers
     [example_customer ''C'' (Some 1) (Some 1) None ''Delivered'',
      example_customer ''A'' None None None ''pending'']
     [] None
   = [spread_distance (example_customer ''A'' None None None ''pending'') None]
   \<and> \<not> delivered (spread_distance (example_customer ''A'' None None None ''pending'') None)
   \<and> delivered (example_customer ''C'' (Some 1) (Some 1) None ''Delivered'')"
proof -
  let ?cs = "[example_customer ''C'' (Some 1) (Some 1) None ''Delivered'',
      example_customer ''A'' None None None ''pending'']"
  have out: "sortedCustomers ?cs [] None
      = [spread_distance (example_customer ''A'' None None None ''pending'') None]"
    by (simp add: rank_defs ex_defs)
  have "\<forall>e\<in>set (sortedCustomers ?cs [] None). \<not> delivered e"
    using delivered_never_ranked [of ?cs "[]" None] by blast
  then have "\<not> delivered (spread_distance (example_customer ''A'' None None None ''pending'') None)"
    unfolding out by simp
  moreover have "delivered (example_customer ''C'' (Some 1) (Some 1) None ''Delivered'')"
    by (simp add: ex_defs toLowerCase_def toLowerCase_char_def)
  ultimately show ?thesis using out by blast
qed

text \<open>
  Claim C3. The example of the specification: device at \<open>(0, 0)\<close>, customers \<open>A\<close> at
  \<open>(0, 0)\<close> and \<open>B\<close> at \<open>(0, 1)\<close>, both pending, and \<open>C\<close> at \<open>(0, 0.5)\<close>,
  delivered. The code excludes \<open>C\<close>, but it attaches no distance to \<open>A\<close> or to \<open>B\<close>,
  whose latitude \<open>0\<close> is falsy, and it finds no nearest customer.
\<close>

theorem zero_coordinate_example:
  "sortedCustomers
     [example_customer ''A'' (Some 0) (Some 0) None ''pending'',
      example_customer ''B'' (Some 0) (Some 1) None ''pending'',
      example_customer ''C'' (Some 0) (Some (1 / 2)) None ''delivered'']
     [] (Some (example_location 0 0))
   = [spread_distance (example_customer ''A'' (Some 0) (Some 0) None ''pending'') None,
      spread_distance (example_customer ''B'' (Some 0) (Some 1) None ''pending'') None]
   \<and> getNearestCustomerInfo
     [example_customer ''A'' (Some 0) (Some 0) None ''pending'',
      example_customer ''B'' (Some 0) (Some 1) None ''pending'',
      example_customer ''C'' (Some 0) (Some (1 / 2)) None ''delivered'']
     (Some (example_location 0 0)) = None"
  by (simp add: rank_defs ex_defs getNearestCustomerInfo_def forEachCallback_def)

text \<open>
  Claim C4. \<open>getNearestCustomerInfo\<close> (\<^verbatim>\<open>findNearestEligible\<close>) returns \<^verbatim>\<open>null\<close>
  when the device position is absent, and when every customer is delivered or lacks a
  latitude or a longitude, the empty list included. The result is a value of the
  function, \<open>None\<close>: the function has no error result.
\<close>

theorem nearest_none:
  "getNearestCustomerInfo customers None = None
   \<and> ((\<forall>c\<in>set customers. delivered c \<or> latitude c = None \<or> longitude c = None)
        \<longrightarrow> getNearestCustomerInfo customers currentLocation = None)"
proof -
  have a: "getNearestCustomerInfo customers None = None"
    by (simp add: getNearestCustomerInfo_def)
  have b: "getNearestCustomerInfo customers currentLocation = None"
    if h: "\<forall>c\<in>set customers. delivered c \<or> latitude c = None \<or> longitude c = None"
  proof (cases currentLocation)
    case None
    then show ?thesis using a by simp
  next
    case (Some loc)
    have "\<forall>c\<in>set customers. compared_distance loc c = None"
      using h by (auto simp: compared_distance_def split: option.splits)
    then have "foldl (forEachCallback loc) (None, Infinity) customers = (None, Infinity)"
      by (rule foldl_forEachCallback_skip)
    then show ?thesis using Some by (simp add: getNearestCustomerInfo_def)
  qed
  from a b show ?thesis by blast
qed

theorem nearest_none_witness:
  "getNearestCustomerInfo
     [example_customer ''C'' (Some 1) (Some 1) None ''DELIVERED'',
      example_customer ''X'' (Some 2) None None ''pending'']
     (Some (example_location 1 1)) = None
   \<and> getNearestCustomerInfo
     [example_customer ''A'' (Some 1) (Some 1) None ''pending''] None = None"
proof -
  let ?cs = "[example_customer ''C'' (Some 1) (Some 1) None ''DELIVERED'',
      example_customer ''X'' (Some 2) None None ''pending'']"
  have "\<forall>c\<in>set ?cs. delivered c \<or> latitude c = None \<or> longitude c = None"
    by (simp add: ex_defs toLowerCase_def toLowerCase_char_def)
  then have "getNearestCustomerInfo ?cs (Some (example_location 1 1)) = None"
    using nearest_none [of ?cs "Some (example_location 1 1)"] by blast
  moreover have "getNearestCustomerInfo
     [example_customer ''A'' (Some 1) (Some 1) None ''pending''] None = None"
    using nearest_none [of "[example_customer ''A'' (Some 1) (Some 1) None ''pending'']" None]
    by blast
  ultimately show ?thesis by blast
qed

text \<open>
  The tie-break of the scan. Among the customers that the scan compares (not
  delivered, latitude and longitude both present and, as the guard of the scan wants
  it, not zero), the first one at the minimal distance wins: if every compared customer
  before \<open>c\<close> is strictly farther than \<open>c\<close> and every compared customer after \<open>c\<close> is
  at the same distance or farther, the result is \<open>c\<close> with its distance. A later
  customer at the same distance never replaces it, since \<^verbatim>\<open>minDistance\<close> changes
  under \<^verbatim>\<open><\<close> only.
\<close>

lemma nearest_first_of_equal_minimum:
  assumes "latitude c = Some lat" and "longitude c = Some lon"
    and "lat \<noteq> 0" and "lon \<noteq> 0" and "\<not> delivered c"
    and "\<forall>x\<in>set pre. \<forall>la lo. latitude x = Some la \<and> longitude x = Some lo
           \<and> la \<noteq> 0 \<and> lo \<noteq> 0 \<and> \<not> delivered x
           \<longrightarrow> js_less (distanceFrom loc lat lon) (distanceFrom loc la lo)"
    and "\<forall>x\<in>set post. \<forall>la lo. latitude x = Some la \<and> longitude x = Some lo
           \<and> la \<noteq> 0 \<and> lo \<noteq> 0 \<and> \<not> delivered x
           \<longrightarrow> distanceFrom loc la lo = distanceFrom loc lat lon
               \<or> js_less (distanceFrom loc lat lon) (distanceFrom loc la lo)"
  shows "getNearestCustomerInfo (pre @ c # post) (Some loc)
         = Some (spread_distance c (Some (distanceFrom loc lat lon)))"
proof (rule getNearestCustomerInfo_first_minimum)
  show "compared_distance loc c = Some (distanceFrom loc lat lon)"
    using assms(1-5) by (simp add: compared_distance_def)
  show "\<forall>x\<in>set pre. \<forall>dx. compared_distance loc x = Some dx
          \<longrightarrow> js_less (distanceFrom loc lat lon) dx"
    using assms(6) by (auto simp: compared_distance_def split: option.splits if_splits)
  obtain k :: nat where k: "distanceFrom loc lat lon = Num (real k)"
    using calculateDistance_nat by blast
  show "\<forall>x\<in>set post. \<forall>dx. compared_distance loc x = Some dx
          \<longrightarrow> \<not> js_less dx (distanceFrom loc lat lon)"
  proof (intro ballI allI impI)
    fix x dx
    assume x: "x \<in> set post" and dx: "compared_distance loc x = Some dx"
    obtain j :: nat where j: "dx = Num (real j)"
      using compared_distance_nat [OF dx] by blast
    from dx obtain la lo where "latitude x = Some la" "longitude x = Some lo" "la \<noteq> 0" "lo \<noteq> 0"
      "\<not> delivered x" "dx = distanceFrom loc la lo"
      by (auto simp: compared_distance_def split: option.splits if_splits)
    then have "dx = distanceFrom loc lat lon \<or> js_less (distanceFrom loc lat lon) dx"
      using assms(7) x by blast
    then show "\<not> js_less dx (distanceFrom loc lat lon)"
      using j k by auto
  qed
qed

lemma nearest_first_of_equal_minimum_example:
  "getNearestCustomerInfo
     ([example_customer ''Z'' (Some 0) (Some 3) None ''pending'']
      @ example_customer ''A'' (Some 3) (Some 4) None ''pending''
      # [example_customer ''B'' (Some 3) (Some 4) None ''pending''])
     (Some (example_location 3 4))
   = Some (spread_distance (example_customer ''A'' (Some 3) (Some 4) None ''pending'')
        (Some (Num 0)))"
proof -
  let ?loc = "example_location 3 4"
  let ?a = "example_customer ''A'' (Some 3) (Some 4) None ''pending''"
  have d: "distanceFrom ?loc 3 4 = Num 0"
    by (simp add: ex_defs calculateDistance_self)
  have "getNearestCustomerInfo
     ([example_customer ''Z'' (Some 0) (Some 3) None ''pending''] @ ?a
      # [example_customer ''B'' (Some 3) (Some 4) None ''pending'']) (Some ?loc)
   = Some (spread_distance ?a (Some (distanceFrom ?loc 3 4)))"
    by (rule nearest_first_of_equal_minimum)
       (simp_all add: ex_defs toLowerCase_def toLowerCase_char_def)
  then show ?thesis unfolding d .
qed

text \<open>
  Claim C5. Two customers at exactly the same minimal distance from the device, the
  first of them on the equator: device at \<open>(1, 1)\<close>, \<open>A\<close> at \<open>(0, 1)\<close> and \<open>B\<close> at
  \<open>(2, 1)\<close>, both pending. The two distances are equal, and the scan returns \<open>B\<close>, the
  second one: \<open>A\<close> never reaches the comparison, its latitude \<open>0\<close> being falsy.
\<close>

theorem nearest_tie_zero_latitude_example:
  "calculateDistance 1 1 0 1 = calculateDistance 1 1 2 1
   \<and> getNearestCustomerInfo
       [example_customer ''A'' (Some 0) (Some 1) None ''pending'',
        example_customer ''B'' (Some 2) (Some 1) None ''pending'']
       (Some (example_location 1 1))
     = Some (spread_distance (example_customer ''B'' (Some 2) (Some 1) None ''pending'')
          (Some (calculateDistance 1 1 2 1)))"
proof -
  have eq: "calculateDistance 1 1 0 1 = calculateDistance 1 1 2 1"
    using calculateDistance_mirror_latitude [of 1 1 1] by simp
  obtain k :: nat where k: "calculateDistance 1 1 2 1 = Num (real k)"
    using calculateDistance_nat by blast
  have "getNearestCustomerInfo
       [example_customer ''A'' (Some 0) (Some 1) None ''pending'',
        example_customer ''B'' (Some 2) (Some 1) None ''pending'']
       (Some (example_location 1 1))
     = Some (spread_distance (example_customer ''B'' (Some 2) (Some 1) None ''pending'')
          (Some (calculateDistance 1 1 2 1)))"
    by (simp add: getNearestCustomerInfo_def forEachCallback_def ex_defs truthy_number_def
          truthy_string_def toLowerCase_def toLowerCase_char_def k Let_def)
  then show ?thesis using eq by blast
qed

text \<open>
  Claim C6. Whatever functions the engine's \<^verbatim>\<open>toLowerCase\<close> and \<^verbatim>\<open>trim\<close> are
  (\<open>lower\<close> and \<open>trm\<close>) and whatever the distances come to, the customers of the
  entries of \<^verbatim>\<open>sortedCustomers\<close> are, with multiplicity, the customers that are not
  delivered and, when the lower-case trimmed query is not empty, have it as a
  contiguous substring of the lower-case name, address, delivery person or order
  details; an absent or empty optional field does not match and the other fields still
  count. When lower-casing gives the empty string on the empty string only, as
  \<^verbatim>\<open>toLowerCase\<close> does, this reads as the claim does: with a trimmed query that is
  empty (an empty or white-space-only query) every customer that is not delivered is
  kept, and otherwise those with a match in one of the four fields.
\<close>

theorem query_filter_retains:
  "mset (map customer.truncate
      (sortedCustomers_with lower trm err customers searchQuery currentLocation))
   = mset (filter (\<lambda>c. lower (status c) \<noteq> ''delivered'' \<and>
        (lower (trm searchQuery) = []
         \<or> sublist (lower (trm searchQuery)) (lower (name c))
         \<or> sublist (lower (trm searchQuery)) (lower (address c))
         \<or> (\<exists>p. deliveryPerson c = Some p \<and> p \<noteq> []
                \<and> sublist (lower (trm searchQuery)) (lower p))
         \<or> (\<exists>d. orderDetails c = Some d \<and> d \<noteq> []
                \<and> sublist (lower (trm searchQuery)) (lower d)))) customers)
   \<and> ((\<forall>s. (lower s = []) = (s = [])) \<longrightarrow>
       mset (map customer.truncate
         (sortedCustomers_with lower trm err customers searchQuery currentLocation))
       = mset (filter (\<lambda>c. lower (status c) \<noteq> ''delivered'' \<and>
          (trm searchQuery = []
           \<or> sublist (lower (trm searchQuery)) (lower (name c))
           \<or> sublist (lower (trm searchQuery)) (lower (address c))
           \<or> (\<exists>p. deliveryPerson c = Some p
                  \<and> sublist (lower (trm searchQuery)) (lower p))
           \<or> (\<exists>d. orderDetails c = Some d
                  \<and> sublist (lower (trm searchQuery)) (lower d)))) customers))"
proof -
  let ?out = "map customer.truncate
      (sortedCustomers_with lower trm err customers searchQuery currentLocation)"
  have "mset ?out = mset (map customer.truncate
          (customersWithDistance_with lower trm err customers searchQuery currentLocation))"
    by (simp add: sortedCustomers_with_def mset_Array_sort)
  also have "map customer.truncate
          (customersWithDistance_with lower trm err customers searchQuery currentLocation)
        = filter (filterCallback_with lower trm searchQuery) customers"
    by (simp add: customersWithDistance_with_def filteredCustomers_with_def
          mapCallback_with_truncate comp_def)
  finally have kept: "mset ?out = mset (filter (filterCallback_with lower trm searchQuery) customers)" .
  have a: "filter (filterCallback_with lower trm searchQuery) customers
      = filter (\<lambda>c. lower (status c) \<noteq> ''delivered'' \<and>
        (lower (trm searchQuery) = []
         \<or> sublist (lower (trm searchQuery)) (lower (name c))
         \<or> sublist (lower (trm searchQuery)) (lower (address c))
         \<or> (\<exists>p. deliveryPerson c = Some p \<and> p \<noteq> []
                \<and> sublist (lower (trm searchQuery)) (lower p))
         \<or> (\<exists>d. orderDetails c = Some d \<and> d \<noteq> []
                \<and> sublist (lower (trm searchQuery)) (lower d)))) customers"
    by (rule filter_cong) (simp_all add: filterCallback_with_iff)
  have b: "filter (filterCallback_with lower trm searchQuery) customers
      = filter (\<lambda>c. lower (status c) \<noteq> ''delivered'' \<and>
          (trm searchQuery = []
           \<or> sublist (lower (trm searchQuery)) (lower (name c))
           \<or> sublist (lower (trm searchQuery)) (lower (address c))
           \<or> (\<exists>p. deliveryPerson c = Some p
                  \<and> sublist (lower (trm searchQuery)) (lower p))
           \<or> (\<exists>d. orderDetails c = Some d
                  \<and> sublist (lower (trm searchQuery)) (lower d)))) customers"
    if e: "\<forall>s. (lower s = []) = (s = [])"
  proof (rule filter_cong)
    fix c
    have n: "lower [] = []" using e by simp
    have q: "(lower (trm searchQuery) = []) = (trm searchQuery = [])" using e by simp
    have opt: "(\<exists>p. f = Some p \<and> p \<noteq> [] \<and> sublist (lower (trm searchQuery)) (lower p))
               \<or> trm searchQuery = []
           \<longleftrightarrow> (\<exists>p. f = Some p \<and> sublist (lower (trm searchQuery)) (lower p))
               \<or> trm searchQuery = []" for f :: "string option"
      using n q by (cases f) auto
    show "filterCallback_with lower trm searchQuery c
        = (lower (status c) \<noteq> ''delivered'' \<and>
          (trm searchQuery = []
           \<or> sublist (lower (trm searchQuery)) (lower (name c))
           \<or> sublist (lower (trm searchQuery)) (lower (address c))
           \<or> (\<exists>p. deliveryPerson c = Some p
                  \<and> sublist (lower (trm searchQuery)) (lower p))
           \<or> (\<exists>d. orderDetails c = Some d
                  \<and> sublist (lower (trm searchQuery)) (lower d))))"
      unfolding filterCallback_with_iff q
      using opt [of "deliveryPerson c"] opt [of "orderDetails c"] by blast
  qed simp
  have c: "mset ?out = mset (filter (\<lambda>c. lower (status c) \<noteq> ''delivered'' \<and>
          (trm searchQuery = []
           \<or> sublist (lower (trm searchQuery)) (lower (name c))
           \<or> sublist (lower (trm searchQuery)) (lower (address c))
           \<or> (\<exists>p. deliveryPerson c = Some p
                  \<and> sublist (lower (trm searchQuery)) (lower p))
           \<or> (\<exists>d. orderDetails c = Some d
                  \<and> sublist (lower (trm searchQuery)) (lower d)))) customers)"
    if e: "\<forall>s. (lower s = []) = (s = [])"
    using kept unfolding b [OF e] .
  show ?thesis
    using kept [unfolded a] c by blast
qed

theorem query_filter_retains_witness:
  "(\<forall>s. (toLowerCase s = []) = (s = []))
   \<and> trim ''  PIZZA '' = ''PIZZA''
   \<and> mset (map customer.truncate (sortedCustomers_with toLowerCase trim (\<lambda>lat1 lon1 lat2 lon2. 0)
       [example_customer ''Q'' None None None ''pending'',
        example_customer ''P'' None None (Some ''Large Pizza'') ''pending'',
        example_customer ''D'' None None (Some ''pizza'') ''delivered'']
       ''  PIZZA '' None))
     = {#example_customer ''P'' None None (Some ''Large Pizza'') ''pending''#}
   \<and> mset (filter (\<lambda>c. toLowerCase (status c) \<noteq> ''delivered'' \<and>
        (trim ''  PIZZA '' = []
         \<or> sublist (toLowerCase (trim ''  PIZZA '')) (toLowerCase (name c))
         \<or> sublist (toLowerCase (trim ''  PIZZA '')) (toLowerCase (address c))
         \<or> (\<exists>p. deliveryPerson c = Some p
                \<and> sublist (toLowerCase (trim ''  PIZZA '')) (toLowerCase p))
         \<or> (\<exists>d. orderDetails c = Some d
                \<and> sublist (toLowerCase (trim ''  PIZZA '')) (toLowerCase d))))
       [example_customer ''Q'' None None None ''pending'',
        example_customer ''P'' None None (Some ''Large Pizza'') ''pending'',
        example_customer ''D'' None None (Some ''pizza'') ''delivered''])
     = {#example_customer ''P'' None None (Some ''Large Pizza'') ''pending''#}"
proof -
  let ?cs = "[example_customer ''Q'' None None None ''pending'',
        example_customer ''P'' None None (Some ''Large Pizza'') ''pending'',
        example_customer ''D'' None None (Some ''pizza'') ''delivered'']"
  have e: "\<forall>s. (toLowerCase s = []) = (s = [])"
    by (simp add: toLowerCase_eq_Nil)
  have t: "trim ''  PIZZA '' = ''PIZZA''"
    by (simp add: trim_def isWhiteSpace_def)
  have out: "sortedCustomers_with toLowerCase trim (\<lambda>lat1 lon1 lat2 lon2. 0) ?cs ''  PIZZA '' None
      = [spread_distance (example_customer ''P'' None None (Some ''Large Pizza'') ''pending'') None]"
    by (simp add: with_defs ex_defs)
  have m: "mset (map customer.truncate
        (sortedCustomers_with toLowerCase trim (\<lambda>lat1 lon1 lat2 lon2. 0) ?cs ''  PIZZA '' None))
      = {#example_customer ''P'' None None (Some ''Large Pizza'') ''pending''#}"
    unfolding out by simp
  have "mset (map customer.truncate
        (sortedCustomers_with toLowerCase trim (\<lambda>lat1 lon1 lat2 lon2. 0) ?cs ''  PIZZA '' None))
       = mset (filter (\<lambda>c. toLowerCase (status c) \<noteq> ''delivered'' \<and>
        (trim ''  PIZZA '' = []
         \<or> sublist (toLowerCase (trim ''  PIZZA '')) (toLowerCase (name c))
         \<or> sublist (toLowerCase (trim ''  PIZZA '')) (toLowerCase (address c))
         \<or> (\<exists>p. deliveryPerson c = Some p
                \<and> sublist (toLowerCase (trim ''  PIZZA '')) (toLowerCase p))
         \<or> (\<exists>d. orderDetails c = Some d
                \<and> sublist (toLowerCase (trim ''  PIZZA '')) (toLowerCase d)))) ?cs)"
    using query_filter_retains [of toLowerCase trim "\<lambda>lat1 lon1 lat2 lon2. 0" ?cs "''  PIZZA ''" None] e
    by blast
  then show ?thesis
    using e t m by simp
qed

text \<open>
  Claim C7. Two points in range and antipodal to each other, \<open>(-12, -179)\<close> and
  \<open>(12, 1)\<close>. The exact value of \<open>a\<close> is \<open>1\<close>, and double arithmetic gives
  \<open>1.0000000000000002\<close>: with this rounding error of \<open>2\<^sup>-\<^sup>5\<^sup>2\<close> the difference
  \<^verbatim>\<open>1 - a\<close> is negative, \<^verbatim>\<open>Math.sqrt\<close> returns \<^verbatim>\<open>NaN\<close> and so does the function,
  where the claim has a non-negative integer. With no rounding error the result is a
  natural number.
\<close>

theorem antipodal_distance_NaN:
  "calculateDistance_rounded (1 / 2 ^ 52) (- 12) (- 179) 12 1 = NaN
   \<and> (\<exists>n::nat. calculateDistance_rounded 0 (- 12) (- 179) 12 1 = Num (real n))"
proof -
  have "calculateDistance_rounded (1 / 2 ^ 52) (- 12) (- 179) 12 1 = NaN"
    by (rule calculateDistance_rounded_above_one [OF antipodal_term]) simp
  moreover have "\<exists>n::nat. calculateDistance_rounded 0 (- 12) (- 179) 12 1 = Num (real n)"
    unfolding calculateDistance_rounded_exact by (rule calculateDistance_nat)
  ultimately show ?thesis by blast
qed

text \<open>
  Claim C9. A customer whose latitude is \<open>0\<close> or whose longitude is \<open>0\<close> is treated
  as one without a position: the map callback gives it no distance whatever the device
  position is, so every entry of \<open>sortedCustomers\<close> made from it has none, and the scan
  for the nearest customer gives the same result with the customer as without it.
\<close>

theorem zero_coordinate_skipped:
  assumes "latitude c = Some 0 \<or> longitude c = Some 0"
  shows "distance (mapCallback currentLocation c) = None
    \<and> (\<forall>e\<in>set (sortedCustomers customers searchQuery currentLocation).
          customer.truncate e = c \<longrightarrow> distance e = None)
    \<and> getNearestCustomerInfo (pre @ c # post) currentLocation
        = getNearestCustomerInfo (pre @ post) currentLocation"
proof -
  have a: "distance (mapCallback currentLocation c) = None"
    using assms by (auto simp: mapCallback_def Let_def truthy_number_def split: option.splits)
  have b: "distance e = None"
    if "e \<in> set (sortedCustomers customers searchQuery currentLocation)" "customer.truncate e = c"
    for e
  proof -
    from that(1) obtain c' where "e = mapCallback currentLocation c'"
      by (auto simp: sortedCustomers_def set_Array_sort customersWithDistance_def)
    then show ?thesis using that(2) a by (simp add: mapCallback_fields)
  qed
  have c: "getNearestCustomerInfo (pre @ c # post) currentLocation
        = getNearestCustomerInfo (pre @ post) currentLocation"
  proof (cases currentLocation)
    case None
    then show ?thesis by (simp add: getNearestCustomerInfo_def)
  next
    case (Some loc)
    have "compared_distance loc c = None"
      using assms by (auto simp: compared_distance_def split: option.splits)
    then show ?thesis using Some
      by (simp add: getNearestCustomerInfo_def forEachCallback_skip)
  qed
  from a b c show ?thesis by blast
qed

theorem zero_coordinate_skipped_witness:
  "latitude (example_customer ''E'' (Some 0) (Some 30) None ''pending'') = Some 0
   \<and> distance (mapCallback (Some (example_location 1 30))
        (example_customer ''E'' (Some 0) (Some 30) None ''pending'')) = None
   \<and> getNearestCustomerInfo
        ([] @ example_customer ''E'' (Some 0) (Some 30) None ''pending'' # [])
        (Some (example_location 1 30))
      = None"
proof -
  let ?e = "example_customer ''E'' (Some 0) (Some 30) None ''pending''"
  have h: "latitude ?e = Some 0" by (simp add: ex_defs)
  then have h': "latitude ?e = Some 0 \<or> longitude ?e = Some 0" by blast
  have n: "getNearestCustomerInfo ([] @ []) (Some (example_location 1 30)) = None"
    by (simp add: getNearestCustomerInfo_def)
  show ?thesis
    using h n zero_coordinate_skipped [OF h', of "Some (example_location 1 30)" "[]" "[]" "[]" "[]"]
    by simp
qed

section \<open>Properties of the heap operations\<close>

text \<open>
  What each operation does to the heap, and that reading the result back gives the
  value that the list functions compute.
\<close>

lemma heap_filter_effect:
  "heap_filter p a h
   = (length (arrays h),
      h\<lparr>arrays := arrays h @ [filter (\<lambda>r. p (customer_of (objects h ! r))) (arrays h ! a)]\<rparr>)"
  by (simp add: heap_filter_def new_array_def)

lemma heap_map_elements_effect:
  "\<forall>r\<in>set rs. r < length (objects h) \<Longrightarrow>
   heap_map_elements f rs h
   = ([length (objects h) ..< length (objects h) + length rs],
      h\<lparr>objects := objects h @ map (\<lambda>r. EntryObject (f (customer_of (objects h ! r)))) rs\<rparr>)"
proof (induction rs arbitrary: h)
  case Nil
  show ?case by simp
next
  case (Cons r rs)
  define v where "v = EntryObject (f (customer_of (objects h ! r)))"
  define n where "n = length (objects h)"
  define h' where "h' = h\<lparr>objects := objects h @ [v]\<rparr>"
  have len: "length (objects h') = Suc n" and objs: "objects h' = objects h @ [v]"
    by (simp_all add: h'_def n_def)
  have bound: "\<forall>x\<in>set rs. x < length (objects h')"
    using Cons.prems by (auto simp: len n_def)
  have same: "map (\<lambda>x. EntryObject (f (customer_of (objects h' ! x)))) rs
              = map (\<lambda>x. EntryObject (f (customer_of (objects h ! x)))) rs"
    using Cons.prems by (intro map_cong) (simp_all add: objs nth_append)
  have ih: "heap_map_elements f rs h'
        = ([Suc n ..< Suc n + length rs],
           h'\<lparr>objects := objects h' @ map (\<lambda>x. EntryObject (f (customer_of (objects h ! x)))) rs\<rparr>)"
    using Cons.IH [OF bound] by (simp only: len same)
  have step: "new_object v h = (n, h')"
    by (simp add: new_object_def n_def h'_def)
  have u: "[n ..< n + length (r # rs)] = n # [Suc n ..< Suc n + length rs]"
    by (simp add: upt_conv_Cons del: upt_Suc)
  have hh: "h'\<lparr>objects := objects h' @ map (\<lambda>x. EntryObject (f (customer_of (objects h ! x)))) rs\<rparr>
       = h\<lparr>objects := objects h @ map (\<lambda>x. EntryObject (f (customer_of (objects h ! x)))) (r # rs)\<rparr>"
    by (simp add: h'_def v_def)
  have "heap_map_elements f (r # rs) h
       = (n # [Suc n ..< Suc n + length rs],
          h'\<lparr>objects := objects h' @ map (\<lambda>x. EntryObject (f (customer_of (objects h ! x)))) rs\<rparr>)"
    using step ih by (simp add: v_def del: upt_Suc)
  then have "heap_map_elements f (r # rs) h
       = ([n ..< n + length (r # rs)],
          h\<lparr>objects := objects h @ map (\<lambda>x. EntryObject (f (customer_of (objects h ! x)))) (r # rs)\<rparr>)"
    by (simp only: u hh)
  then show ?case
    by (simp only: n_def)
qed

lemma map_sort_insert:
  "map g (sort_insert (\<lambda>x y. cmp (g x) (g y)) x ys) = sort_insert cmp (g x) (map g ys)"
  by (induction ys) simp_all

lemma map_Array_sort:
  "map g (Array_sort (\<lambda>x y. cmp (g x) (g y)) xs) = Array_sort cmp (map g xs)"
  by (induction xs) (simp_all add: Array_sort_def map_sort_insert)

lemma map_nth_append_upt:
  "map (\<lambda>i. g ((xs @ ys) ! i)) [length xs ..< length xs + length ys] = map g ys"
  by (rule nth_equalityI) (simp_all add: nth_append)

lemma map_filter_lookup:
  "map g (filter (\<lambda>r. p (g r)) rs) = filter p (map g rs)"
  by (induction rs) simp_all

lemma sortedCustomers_heap_effect:
  fixes h :: heap and customers :: ref and searchQuery :: string
    and currentLocation :: "location option"
  assumes wf: "wf_heap h" and a: "customers < length (arrays h)"
  defines "frs \<equiv> filter (\<lambda>r. filterCallback searchQuery (customer_of (objects h ! r)))
                   (arrays h ! customers)"
  defines "n \<equiv> length (objects h)"
  defines "cmp \<equiv> \<lambda>os x y. sortCallback (entry_of (os ! x)) (entry_of (os ! y))"
  defines "os \<equiv> objects h @ map (\<lambda>r. EntryObject (mapCallback currentLocation
                   (customer_of (objects h ! r)))) frs"
  shows "sortedCustomers_heap customers searchQuery currentLocation h
         = (Suc (length (arrays h)),
            \<lparr>objects = os,
             arrays = arrays h @ [frs, Array_sort (cmp os) [n ..< n + length frs]]\<rparr>)"
proof -
  have bound: "\<forall>r\<in>set frs. r < length (objects h)"
    using wf a by (auto simp: wf_heap_def frs_def)
  define h1 where "h1 = h\<lparr>arrays := arrays h @ [frs]\<rparr>"
  have f: "heap_filter (filterCallback searchQuery) customers h = (length (arrays h), h1)"
    by (simp add: heap_filter_effect h1_def frs_def)
  have h1: "objects h1 = objects h" "arrays h1 ! length (arrays h) = frs"
    "length (arrays h1) = Suc (length (arrays h))"
    by (simp_all add: h1_def)
  have "heap_map_elements (mapCallback currentLocation) frs h1
        = ([n ..< n + length frs], h1\<lparr>objects := os\<rparr>)"
    using heap_map_elements_effect [of frs h1 "mapCallback currentLocation"] bound
    by (simp add: h1 n_def os_def)
  then have m: "heap_map (mapCallback currentLocation) (length (arrays h)) h1
        = (Suc (length (arrays h)),
           h1\<lparr>objects := os, arrays := arrays h1 @ [[n ..< n + length frs]]\<rparr>)"
    by (simp add: heap_map_def h1 new_array_def)
  define h2 where "h2 = h1\<lparr>objects := os, arrays := arrays h1 @ [[n ..< n + length frs]]\<rparr>"
  have h2: "objects h2 = os" "arrays h2 = arrays h @ [frs, [n ..< n + length frs]]"
    by (simp_all add: h2_def h1_def)
  have "heap_sort sortCallback (Suc (length (arrays h))) h2
        = (Suc (length (arrays h)),
           \<lparr>objects = os,
            arrays = arrays h @ [frs, Array_sort (cmp os) [n ..< n + length frs]]\<rparr>)"
    by (simp add: heap_sort_def h2 cmp_def nth_append list_update_append h2_def h1_def)
  then show ?thesis
    using f m by (simp add: sortedCustomers_heap_def h2_def)
qed

lemma sortedCustomers_heap_read:
  assumes wf: "wf_heap h" and a: "customers < length (arrays h)"
  shows "read_entries (snd (sortedCustomers_heap customers searchQuery currentLocation h))
           (fst (sortedCustomers_heap customers searchQuery currentLocation h))
         = sortedCustomers (read_customers h customers) searchQuery currentLocation"
proof -
  define frs where "frs = filter (\<lambda>r. filterCallback searchQuery (customer_of (objects h ! r)))
                   (arrays h ! customers)"
  define ms where "ms = map (\<lambda>r. EntryObject (mapCallback currentLocation
                   (customer_of (objects h ! r)))) frs"
  define os where "os = objects h @ ms"
  have eff: "sortedCustomers_heap customers searchQuery currentLocation h
         = (Suc (length (arrays h)),
            \<lparr>objects = os,
             arrays = arrays h @ [frs, Array_sort (\<lambda>x y. sortCallback (entry_of (os ! x)) (entry_of (os ! y)))
                 [length (objects h) ..< length (objects h) + length frs]]\<rparr>)"
    using sortedCustomers_heap_effect [OF wf a, of searchQuery currentLocation]
    by (simp add: frs_def os_def ms_def)
  have len: "length ms = length frs" by (simp add: ms_def)
  have "map (\<lambda>i. entry_of (os ! i)) [length (objects h) ..< length (objects h) + length frs]
        = map entry_of ms"
    using map_nth_append_upt [of entry_of "objects h" ms] by (simp add: os_def len)
  also have "\<dots> = map (mapCallback currentLocation)
                      (map (\<lambda>r. customer_of (objects h ! r)) frs)"
    by (simp add: ms_def comp_def)
  also have "map (\<lambda>r. customer_of (objects h ! r)) frs
             = filter (filterCallback searchQuery) (read_customers h customers)"
    unfolding frs_def read_customers_def by (rule map_filter_lookup)
  finally have ents: "map (\<lambda>i. entry_of (os ! i)) [length (objects h) ..< length (objects h) + length frs]
        = customersWithDistance (read_customers h customers) searchQuery currentLocation"
    by (simp add: customersWithDistance_def filteredCustomers_def)
  have "read_entries (snd (sortedCustomers_heap customers searchQuery currentLocation h))
           (fst (sortedCustomers_heap customers searchQuery currentLocation h))
        = map (\<lambda>i. entry_of (os ! i))
            (Array_sort (\<lambda>x y. sortCallback (entry_of (os ! x)) (entry_of (os ! y)))
                 [length (objects h) ..< length (objects h) + length frs])"
    by (simp add: eff read_entries_def nth_append)
  also have "\<dots> = Array_sort sortCallback
      (map (\<lambda>i. entry_of (os ! i)) [length (objects h) ..< length (objects h) + length frs])"
    by (rule map_Array_sort)
  finally show ?thesis
    by (simp add: ents sortedCustomers_def)
qed

lemma forEachCallback_heap_step:
  assumes r: "r < length (objects hc)"
    and n: "\<forall>x. n = Some x \<longrightarrow> x < length (objects hc)"
  shows "\<exists>n' m' extra.
      forEachCallback_heap loc ((n, m), hc) r
        = ((n', m'), hc\<lparr>objects := objects hc @ extra\<rparr>)
      \<and> (\<forall>x. n' = Some x \<longrightarrow> x < length (objects hc @ extra))
      \<and> (\<forall>x. n' = Some x \<longrightarrow> n' = n \<or> length (objects hc) \<le> x)
      \<and> (map_option (\<lambda>x. entry_of ((objects hc @ extra) ! x)) n', m')
          = forEachCallback loc (map_option (\<lambda>x. entry_of (objects hc ! x)) n, m)
              (customer_of (objects hc ! r))"
proof -
  define c where "c = customer_of (objects hc ! r)"
  show ?thesis
  proof (cases "compared_distance loc c")
    case None
    then have "forEachCallback_heap loc ((n, m), hc) r = ((n, m), hc)"
      by (auto simp: compared_distance_def forEachCallback_heap_def c_def Let_def
            truthy_number_def delivered_truthy split: option.splits if_splits)
    then have "forEachCallback_heap loc ((n, m), hc) r = ((n, m), hc\<lparr>objects := objects hc @ []\<rparr>)"
      by simp
    moreover have "forEachCallback loc (map_option (\<lambda>x. entry_of (objects hc ! x)) n, m) c
                   = (map_option (\<lambda>x. entry_of (objects hc ! x)) n, m)"
      using None by (rule forEachCallback_skip)
    ultimately show ?thesis
      using n unfolding c_def [symmetric] by (intro exI [of _ n] exI [of _ m] exI [of _ "[]"]) simp
  next
    case (Some d)
    show ?thesis
    proof (cases "js_less d m")
      case False
      have "forEachCallback_heap loc ((n, m), hc) r = ((n, m), hc)"
        using Some False
        by (auto simp: compared_distance_def forEachCallback_heap_def c_def Let_def
              truthy_number_def split: option.splits if_splits)
      then have "forEachCallback_heap loc ((n, m), hc) r
                 = ((n, m), hc\<lparr>objects := objects hc @ []\<rparr>)"
        by simp
      moreover have "forEachCallback loc (map_option (\<lambda>x. entry_of (objects hc ! x)) n, m) c
                   = (map_option (\<lambda>x. entry_of (objects hc ! x)) n, m)"
        using Some False by (simp add: forEachCallback_compare)
      ultimately show ?thesis
        using n unfolding c_def [symmetric]
        by (intro exI [of _ n] exI [of _ m] exI [of _ "[]"]) simp
    next
      case True
      define v where "v = EntryObject (spread_distance c (Some d))"
      have "forEachCallback_heap loc ((n, m), hc) r
            = ((Some (length (objects hc)), d), hc\<lparr>objects := objects hc @ [v]\<rparr>)"
        using Some True
        by (auto simp: compared_distance_def forEachCallback_heap_def c_def Let_def v_def
              truthy_number_def new_object_def split: option.splits if_splits)
      moreover have "forEachCallback loc (map_option (\<lambda>x. entry_of (objects hc ! x)) n, m) c
                   = (Some (spread_distance c (Some d)), d)"
        using Some True by (simp add: forEachCallback_compare)
      ultimately show ?thesis
        unfolding c_def [symmetric]
        by (intro exI [of _ "Some (length (objects hc))"] exI [of _ d] exI [of _ "[v]"])
           (simp add: v_def)
    qed
  qed
qed

lemma foldl_forEachCallback_heap:
  assumes "\<forall>r\<in>set rs. r < length (objects hc)"
    and "\<forall>x. n = Some x \<longrightarrow> x < length (objects hc)"
  shows "\<exists>n' m' extra.
      foldl (forEachCallback_heap loc) ((n, m), hc) rs
        = ((n', m'), hc\<lparr>objects := objects hc @ extra\<rparr>)
      \<and> (\<forall>x. n' = Some x \<longrightarrow> x < length (objects hc @ extra))
      \<and> (\<forall>x. n' = Some x \<longrightarrow> n' = n \<or> length (objects hc) \<le> x)
      \<and> (map_option (\<lambda>x. entry_of ((objects hc @ extra) ! x)) n', m')
          = foldl (forEachCallback loc) (map_option (\<lambda>x. entry_of (objects hc ! x)) n, m)
              (map (\<lambda>r. customer_of (objects hc ! r)) rs)"
  using assms
proof (induction rs arbitrary: n m hc)
  case Nil
  then show ?case
    by (intro exI [of _ n] exI [of _ m] exI [of _ "[]"]) simp
next
  case (Cons r rs)
  have r: "r < length (objects hc)" using Cons.prems(1) by simp
  obtain n1 m1 ex1 where
    s1: "forEachCallback_heap loc ((n, m), hc) r = ((n1, m1), hc\<lparr>objects := objects hc @ ex1\<rparr>)"
    and b1: "\<forall>x. n1 = Some x \<longrightarrow> x < length (objects hc @ ex1)"
    and f1: "\<forall>x. n1 = Some x \<longrightarrow> n1 = n \<or> length (objects hc) \<le> x"
    and a1: "(map_option (\<lambda>x. entry_of ((objects hc @ ex1) ! x)) n1, m1)
          = forEachCallback loc (map_option (\<lambda>x. entry_of (objects hc ! x)) n, m)
              (customer_of (objects hc ! r))"
    using forEachCallback_heap_step [OF r Cons.prems(2), of loc m] by blast
  define h1 where "h1 = hc\<lparr>objects := objects hc @ ex1\<rparr>"
  have o1: "objects h1 = objects hc @ ex1" by (simp add: h1_def)
  have rs1: "\<forall>x\<in>set rs. x < length (objects h1)"
    using Cons.prems(1) by (auto simp: o1)
  have n1: "\<forall>x. n1 = Some x \<longrightarrow> x < length (objects h1)"
    using b1 by (simp add: o1)
  obtain n2 m2 ex2 where
    s2: "foldl (forEachCallback_heap loc) ((n1, m1), h1) rs
          = ((n2, m2), h1\<lparr>objects := objects h1 @ ex2\<rparr>)"
    and b2: "\<forall>x. n2 = Some x \<longrightarrow> x < length (objects h1 @ ex2)"
    and f2: "\<forall>x. n2 = Some x \<longrightarrow> n2 = n1 \<or> length (objects h1) \<le> x"
    and a2: "(map_option (\<lambda>x. entry_of ((objects h1 @ ex2) ! x)) n2, m2)
          = foldl (forEachCallback loc) (map_option (\<lambda>x. entry_of (objects h1 ! x)) n1, m1)
              (map (\<lambda>r. customer_of (objects h1 ! r)) rs)"
    using Cons.IH [OF rs1 n1, of m1] by blast
  have same: "map (\<lambda>r. customer_of (objects h1 ! r)) rs
              = map (\<lambda>r. customer_of (objects hc ! r)) rs"
    using Cons.prems(1) by (intro map_cong) (simp_all add: o1 nth_append)
  have heap: "h1\<lparr>objects := objects h1 @ ex2\<rparr> = hc\<lparr>objects := objects hc @ (ex1 @ ex2)\<rparr>"
    by (simp add: h1_def)
  have "foldl (forEachCallback_heap loc) ((n, m), hc) (r # rs)
        = ((n2, m2), hc\<lparr>objects := objects hc @ (ex1 @ ex2)\<rparr>)"
    using s1 s2 by (simp add: h1_def)
  moreover have "\<forall>x. n2 = Some x \<longrightarrow> x < length (objects hc @ (ex1 @ ex2))"
    using b2 by (simp add: o1)
  moreover have "\<forall>x. n2 = Some x \<longrightarrow> n2 = n \<or> length (objects hc) \<le> x"
    using f1 f2 by (auto simp: o1)
  moreover have "(map_option (\<lambda>x. entry_of ((objects hc @ (ex1 @ ex2)) ! x)) n2, m2)
          = foldl (forEachCallback loc) (map_option (\<lambda>x. entry_of (objects hc ! x)) n, m)
              (map (\<lambda>r. customer_of (objects hc ! r)) (r # rs))"
    using a1 a2 [unfolded same] by (simp add: o1)
  ultimately show ?case by blast
qed

lemma getNearestCustomerInfo_heap_effect:
  assumes wf: "wf_heap h" and a: "customers < length (arrays h)"
  shows "\<exists>n extra.
      getNearestCustomerInfo_heap customers currentLocation h
        = (n, h\<lparr>objects := objects h @ extra\<rparr>)
      \<and> (\<forall>x. n = Some x \<longrightarrow> length (objects h) \<le> x \<and> x < length (objects h @ extra))
      \<and> map_option (\<lambda>x. entry_of ((objects h @ extra) ! x)) n
          = getNearestCustomerInfo (read_customers h customers) currentLocation"
proof (cases currentLocation)
  case None
  then show ?thesis
    by (intro exI [of _ None] exI [of _ "[]"])
       (simp add: getNearestCustomerInfo_heap_def getNearestCustomerInfo_def)
next
  case (Some loc)
  have bound: "\<forall>r\<in>set (arrays h ! customers). r < length (objects h)"
    using wf a by (auto simp: wf_heap_def)
  obtain n m extra where
    s: "foldl (forEachCallback_heap loc) ((None, Infinity), h) (arrays h ! customers)
          = ((n, m), h\<lparr>objects := objects h @ extra\<rparr>)"
    and b: "\<forall>x. n = Some x \<longrightarrow> x < length (objects h @ extra)"
    and f: "\<forall>x. n = Some x \<longrightarrow> n = None \<or> length (objects h) \<le> x"
    and r: "(map_option (\<lambda>x. entry_of ((objects h @ extra) ! x)) n, m)
          = foldl (forEachCallback loc) (map_option (\<lambda>x. entry_of (objects h ! x)) None, Infinity)
              (map (\<lambda>r. customer_of (objects h ! r)) (arrays h ! customers))"
    using foldl_forEachCallback_heap [OF bound, of None loc Infinity] by auto
  have "getNearestCustomerInfo_heap customers currentLocation h
        = (n, h\<lparr>objects := objects h @ extra\<rparr>)"
    using s Some by (simp add: getNearestCustomerInfo_heap_def)
  moreover have "\<forall>x. n = Some x \<longrightarrow> length (objects h) \<le> x \<and> x < length (objects h @ extra)"
    using b f by auto
  moreover have "map_option (\<lambda>x. entry_of ((objects h @ extra) ! x)) n
          = getNearestCustomerInfo (read_customers h customers) currentLocation"
    using r [symmetric] Some by (simp add: getNearestCustomerInfo_def read_customers_def)
  ultimately show ?thesis by blast
qed

lemmas heap_op_defs = sortedCustomers_heap_def heap_filter_def heap_map_def heap_sort_def
  new_array_def new_object_def getNearestCustomerInfo_heap_def forEachCallback_heap_def
  wf_heap_def read_customers_def read_entries_def

section \<open>The claim about the frame\<close>

text \<open>
  Claim C8. Run on a well-formed heap with the address of the customer array,
  \<open>sortedCustomers_heap\<close> and \<open>getNearestCustomerInfo_heap\<close> leave every object and
  every array that existed before the call as it was, the customer array and its
  records among them: the heap only grows. The ranking returns a new array of new
  objects, the scan a new object or \<^verbatim>\<open>null\<close>, and what they hold is the value of
  \<open>sortedCustomers\<close> and of \<open>getNearestCustomerInfo\<close> on the contents of the customer
  array, the query and the device position: a function of these three and of nothing
  else, since the functions read no other state and keep none.
\<close>

theorem ranking_leaves_input_unchanged:
  assumes "wf_heap h" and "customers < length (arrays h)"
  shows "(case sortedCustomers_heap customers searchQuery currentLocation h of
            (r, h') \<Rightarrow>
              take (length (objects h)) (objects h') = objects h
              \<and> take (length (arrays h)) (arrays h') = arrays h
              \<and> read_customers h' customers = read_customers h customers
              \<and> length (arrays h) \<le> r \<and> r < length (arrays h')
              \<and> (\<forall>x\<in>set (arrays h' ! r). length (objects h) \<le> x \<and> x < length (objects h'))
              \<and> read_entries h' r
                  = sortedCustomers (read_customers h customers) searchQuery currentLocation)
       \<and> (case getNearestCustomerInfo_heap customers currentLocation h of
            (n, h') \<Rightarrow>
              take (length (objects h)) (objects h') = objects h
              \<and> arrays h' = arrays h
              \<and> read_customers h' customers = read_customers h customers
              \<and> (case n of None \<Rightarrow> True
                  | Some x \<Rightarrow> length (objects h) \<le> x \<and> x < length (objects h'))
              \<and> map_option (\<lambda>x. entry_of (objects h' ! x)) n
                  = getNearestCustomerInfo (read_customers h customers) currentLocation)"
proof -
  have bound: "\<forall>r\<in>set (arrays h ! customers). r < length (objects h)"
    using assms by (auto simp: wf_heap_def)
  have keep: "map (\<lambda>r. customer_of ((objects h @ extra) ! r)) (arrays h ! customers)
              = map (\<lambda>r. customer_of (objects h ! r)) (arrays h ! customers)" for extra
    using bound by (intro map_cong) (simp_all add: nth_append)
  obtain r h' where rh: "sortedCustomers_heap customers searchQuery currentLocation h = (r, h')"
    by (cases "sortedCustomers_heap customers searchQuery currentLocation h")
  have eff: "\<exists>extra frs srt. r = Suc (length (arrays h)) \<and> objects h' = objects h @ extra
               \<and> arrays h' = arrays h @ [frs, srt]"
    using sortedCustomers_heap_effect [OF assms, of searchQuery currentLocation] rh by auto
  have rd: "read_entries h' r
            = sortedCustomers (read_customers h customers) searchQuery currentLocation"
    using sortedCustomers_heap_read [OF assms, of searchQuery currentLocation] rh by simp
  have new: "\<forall>x\<in>set (arrays h' ! r). length (objects h) \<le> x \<and> x < length (objects h')"
    using sortedCustomers_heap_effect [OF assms, of searchQuery currentLocation] rh
    by (auto simp: set_Array_sort nth_append)
  have first: "take (length (objects h)) (objects h') = objects h
              \<and> take (length (arrays h)) (arrays h') = arrays h
              \<and> read_customers h' customers = read_customers h customers
              \<and> length (arrays h) \<le> r \<and> r < length (arrays h')
              \<and> (\<forall>x\<in>set (arrays h' ! r). length (objects h) \<le> x \<and> x < length (objects h'))
              \<and> read_entries h' r
                  = sortedCustomers (read_customers h customers) searchQuery currentLocation"
    using eff rd assms(2) keep new by (auto simp: read_customers_def nth_append)
  obtain n extra where
    g: "getNearestCustomerInfo_heap customers currentLocation h
        = (n, h\<lparr>objects := objects h @ extra\<rparr>)"
    and fresh: "\<forall>x. n = Some x \<longrightarrow> length (objects h) \<le> x \<and> x < length (objects h @ extra)"
    and res: "map_option (\<lambda>x. entry_of ((objects h @ extra) ! x)) n
          = getNearestCustomerInfo (read_customers h customers) currentLocation"
    using getNearestCustomerInfo_heap_effect [OF assms, of currentLocation] by blast
  have second: "take (length (objects h)) (objects (h\<lparr>objects := objects h @ extra\<rparr>)) = objects h
              \<and> arrays (h\<lparr>objects := objects h @ extra\<rparr>) = arrays h
              \<and> read_customers (h\<lparr>objects := objects h @ extra\<rparr>) customers
                  = read_customers h customers
              \<and> (case n of None \<Rightarrow> True
                  | Some x \<Rightarrow> length (objects h) \<le> x
                      \<and> x < length (objects (h\<lparr>objects := objects h @ extra\<rparr>)))
              \<and> map_option (\<lambda>x. entry_of (objects (h\<lparr>objects := objects h @ extra\<rparr>) ! x)) n
                  = getNearestCustomerInfo (read_customers h customers) currentLocation"
    using fresh res keep by (auto simp: read_customers_def split: option.splits)
  show ?thesis
    unfolding rh g using first second by simp
qed

theorem ranking_leaves_input_unchanged_witness:
  "wf_heap \<lparr>objects = [CustomerObject (example_customer ''A'' None None None ''pending''),
                       CustomerObject (example_customer ''B'' (Some 1) (Some 1) None ''pending'')],
            arrays = [[0, 1]]\<rparr>
   \<and> sortedCustomers_heap 0 [] (Some (example_location 1 1))
       \<lparr>objects = [CustomerObject (example_customer ''A'' None None None ''pending''),
                   CustomerObject (example_customer ''B'' (Some 1) (Some 1) None ''pending'')],
        arrays = [[0, 1]]\<rparr>
     = (2, \<lparr>objects = [CustomerObject (example_customer ''A'' None None None ''pending''),
                   CustomerObject (example_customer ''B'' (Some 1) (Some 1) None ''pending''),
                   EntryObject (spread_distance
                     (example_customer ''A'' None None None ''pending'') None),
                   EntryObject (spread_distance
                     (example_customer ''B'' (Some 1) (Some 1) None ''pending'') (Some (Num 0)))],
            arrays = [[0, 1], [0, 1], [3, 2]]\<rparr>)
   \<and> read_entries (snd (sortedCustomers_heap 0 [] (Some (example_location 1 1))
       \<lparr>objects = [CustomerObject (example_customer ''A'' None None None ''pending''),
                   CustomerObject (example_customer ''B'' (Some 1) (Some 1) None ''pending'')],
        arrays = [[0, 1]]\<rparr>)) 2
     = sortedCustomers [example_customer ''A'' None None None ''pending'',
         example_customer ''B'' (Some 1) (Some 1) None ''pending''] [] (Some (example_location 1 1))"
proof -
  let ?h = "\<lparr>objects = [CustomerObject (example_customer ''A'' None None None ''pending''),
                       CustomerObject (example_customer ''B'' (Some 1) (Some 1) None ''pending'')],
            arrays = [[0, 1]]\<rparr>"
  have wf: "wf_heap ?h" by (simp add: wf_heap_def)
  have a: "0 < length (arrays ?h)" by simp
  have run: "sortedCustomers_heap 0 [] (Some (example_location 1 1)) ?h
     = (2, \<lparr>objects = [CustomerObject (example_customer ''A'' None None None ''pending''),
                   CustomerObject (example_customer ''B'' (Some 1) (Some 1) None ''pending''),
                   EntryObject (spread_distance
                     (example_customer ''A'' None None None ''pending'') None),
                   EntryObject (spread_distance
                     (example_customer ''B'' (Some 1) (Some 1) None ''pending'') (Some (Num 0)))],
            arrays = [[0, 1], [0, 1], [3, 2]]\<rparr>)"
    by (simp add: heap_op_defs rank_defs ex_defs calculateDistance_self)
  have rc: "read_customers ?h 0 = [example_customer ''A'' None None None ''pending'',
         example_customer ''B'' (Some 1) (Some 1) None ''pending'']"
    by (simp add: read_customers_def)
  show ?thesis
    using wf run rc ranking_leaves_input_unchanged [OF wf a, of "[]" "Some (example_location 1 1)"]
    by (simp add: split_beta)
qed

end
